theory Spec2Isabelle
  imports Complex_Main
begin

section \<open>The orchestration core of lp_data/Highs.cpp\<close>

text \<open>
  This theory embeds the member functions of class \<open>Highs\<close> that sequence presolve,
  the LP solver and postsolve, that finalise a run, and that edit a loaded model.
  The class is a \<^theory_text>\<open>record\<close>, every member function takes the object and
  returns it updated, and an early \<open>return\<close> is the left injection of a sum.

  The simplex and interior point solvers, the presolve component, the file readers, the
  timer and the structural edit interface are collaborators whose code is elsewhere.
  They are the fields of the record \<open>env\<close>: every theorem holds for each
  behaviour they may show. Doubles are modelled as reals. An \<open>assert\<close> is compiled
  out of a release build and is not part of the model; logging and the time report at the
  end of \<open>run\<close> write nothing into the object and are left out.

  A member whose name ends in an underscore in the source (\<open>hmos_\<close>, \<open>lp_\<close>,
  \<open>numCol_\<close>) ends in a prime here (\<open>hmos'\<close>, \<open>lp'\<close>, \<open>numCol'\<close>): a name of
  Isabelle cannot end in an underscore.
\<close>

subsection \<open>Enumerations\<close>

datatype HighsStatus = OK | Warning | Error

datatype HighsModelStatus =
    NOTSET
  | LOAD_ERROR
  | MODEL_ERROR
  | PRESOLVE_ERROR
  | SOLVE_ERROR
  | POSTSOLVE_ERROR
  | MODEL_EMPTY
  | PRIMAL_INFEASIBLE
  | PRIMAL_UNBOUNDED
  | OPTIMAL
  | REACHED_DUAL_OBJECTIVE_VALUE_UPPER_BOUND
  | REACHED_TIME_LIMIT
  | REACHED_ITERATION_LIMIT

text \<open>
  The presolve outcomes that \<open>run\<close> and \<open>runPresolve\<close> name. \<open>NullError\<close> and
  \<open>Empty\<close> fall into the \<open>default\<close> branch of the switch in \<open>run\<close>.
\<close>

datatype HighsPresolveStatus =
    NotPresolved
  | NotReduced
  | Infeasible
  | Unbounded
  | Empty
  | Reduced
  | ReducedToEmpty
  | Timeout
  | NullError
  | OptionsError

datatype HighsPostsolveStatus =
    ReducedSolutionEmpty
  | ReducedSolutionDimenionsError
  | SolutionRecovered
  | LpOrPresolveObjectMissing
  | BasisError
  | NoPostsolve

datatype ObjSense = MINIMIZE | MAXIMIZE

datatype PrimalDualStatus =
    STATUS_NOTSET
  | STATUS_NO_SOLUTION
  | STATUS_UNKNOWN
  | STATUS_INFEASIBLE_POINT
  | STATUS_FEASIBLE_POINT

text \<open>The first enumerator is the value a \<open>resize\<close> fills new entries with.\<close>

datatype HighsBasisStatus = LOWER | BASIC | UPPER | ZERO | NONBASIC | SUPER

datatype FilereaderRetcode =
    FilereaderRetcode_OK
  | FILENOTFOUND
  | PARSERERROR
  | NOT_IMPLEMENTED

subsection \<open>Data\<close>

text \<open>
  The counts \<open>numCol_\<close> and \<open>numRow_\<close> are \<open>int\<close> in the source and never negative
  in an LP; they are natural numbers here, so that they can size a vector.
\<close>

record HighsLp =
  numCol' :: nat
  numRow' :: nat
  Astart' :: "int list"
  Aindex' :: "int list"
  Avalue' :: "real list"
  colCost' :: "real list"
  colLower' :: "real list"
  colUpper' :: "real list"
  rowLower' :: "real list"
  rowUpper' :: "real list"
  sense' :: ObjSense
  model_name' :: string
  lp_name' :: string

record HighsSolution =
  col_value :: "real list"
  col_dual :: "real list"
  row_value :: "real list"
  row_dual :: "real list"

record HighsBasis =
  valid' :: bool
  col_status :: "HighsBasisStatus list"
  row_status :: "HighsBasisStatus list"

record HighsOptions =
  model_file :: string
  presolve :: string
  solver :: string
  run_crossover :: bool
  run_as_hsol :: bool
  time_limit :: real
  dual_objective_value_upper_bound :: real
  simplex_strategy :: int
  highs_min_threads :: int
  highs_max_threads :: int
  message_level :: int

record HighsIterationCounts =
  simplex :: int
  ipm :: int
  crossover :: int

record HighsInfo =
  simplex_iteration_count :: int
  ipm_iteration_count :: int
  crossover_iteration_count :: int
  primal_status :: PrimalDualStatus
  dual_status :: PrimalDualStatus
  objective_function_value :: real
  num_primal_infeasibilities :: int
  max_primal_infeasibility :: real
  sum_primal_infeasibilities :: real
  num_dual_infeasibilities :: int
  max_dual_infeasibility :: real
  sum_dual_infeasibilities :: real

text \<open>
  \<open>HighsSolutionParams\<close> has the fields that \<open>getHighsModelStatusAndInfo\<close> copies
  into \<open>info_\<close>; the prefix \<open>sp_\<close> keeps them apart from the fields of \<open>HighsInfo\<close>.
\<close>

record HighsSolutionParams =
  sp_primal_status :: PrimalDualStatus
  sp_dual_status :: PrimalDualStatus
  sp_objective_function_value :: real
  sp_num_primal_infeasibilities :: int
  sp_max_primal_infeasibility :: real
  sp_sum_primal_infeasibilities :: real
  sp_num_dual_infeasibilities :: int
  sp_max_dual_infeasibility :: real
  sp_sum_dual_infeasibilities :: real

text \<open>
  A \<open>HighsModelObject\<close> is built from \<open>lp_\<close>, \<open>options_\<close> and \<open>timer_\<close> of the
  \<open>Highs\<close> object (or from the reduced LP of the presolve component) and refers to
  them: \<open>updateHighsSolutionBasis\<close> reads \<open>lp_.numCol_\<close> for the dimensions that an
  edit of \<open>hmos_[0]\<close> has just changed, and \<open>run\<close> restores \<open>hmos_[i].options_\<close>.
  So the model object holds the name of its LP, not a copy, and its options are
  \<open>options_\<close> of the \<open>Highs\<close> record. The fields of the model object carry the
  prefix \<open>hmo_\<close>.
\<close>

datatype lp_ref = OriginalLp | ReducedLp

record HighsModelObject =
  hmo_lp' :: lp_ref
  hmo_basis' :: HighsBasis
  hmo_solution' :: HighsSolution
  hmo_unscaled_model_status' :: HighsModelStatus
  hmo_scaled_model_status' :: HighsModelStatus
  hmo_unscaled_solution_params' :: HighsSolutionParams
  hmo_iteration_counts' :: HighsIterationCounts

text \<open>
  The presolve component: its status flags, the time limit of its options, the reduction
  counts of \<open>info_\<close>, the LPs and solutions of \<open>data_\<close>, and the basis of
  \<open>data_.presolve_[0]\<close> (written by \<open>setBasisInfo\<close> and by postsolve, read by
  \<open>getColStatus\<close> and \<open>getRowStatus\<close>).
\<close>

record PresolveComponent =
  has_run' :: bool
  presolve_status' :: HighsPresolveStatus
  presolve_time_limit :: real
  n_cols_removed :: int
  n_rows_removed :: int
  n_nnz_removed :: int
  reduced_lp' :: HighsLp
  reduced_solution' :: HighsSolution
  recovered_solution' :: HighsSolution
  presolve_col_status :: "HighsBasisStatus list"
  presolve_row_status :: "HighsBasisStatus list"

subsection \<open>Instrumentation\<close>

text \<open>
  The stages that a run invokes are recorded, in order, in the field \<open>calls_\<close> of the
  object. The field is not in the source: it is the counter that tells whether and with
  which arguments a stage ran. \<open>RunCalled\<close> holds \<open>basis_.valid_\<close> and
  \<open>options_.presolve\<close> at the entry of \<open>run\<close>; \<open>SolveLpCalled\<close> holds the index
  of the model object, the message and the options that \<open>solveLp\<close> is given;
  \<open>PostsolveCalled\<close> holds the reduced solution handed to postsolve.
\<close>

datatype stage_call =
    RunCalled bool string
  | PresolveReturned HighsPresolveStatus
  | SolveLpCalled nat string HighsOptions
  | PostsolveCalled HighsSolution
  | PostsolveReturned HighsPostsolveStatus

fun is_RunCalled :: "stage_call \<Rightarrow> bool" where
  "is_RunCalled (RunCalled b p) = True"
| "is_RunCalled c = False"

fun is_SolveLpCalled :: "stage_call \<Rightarrow> bool" where
  "is_SolveLpCalled (SolveLpCalled i m opts) = True"
| "is_SolveLpCalled c = False"

fun is_Postsolve :: "stage_call \<Rightarrow> bool" where
  "is_Postsolve (PostsolveCalled sol) = True"
| "is_Postsolve (PostsolveReturned p) = True"
| "is_Postsolve c = False"

fun is_PresolveReturned :: "stage_call \<Rightarrow> bool" where
  "is_PresolveReturned (PresolveReturned p) = True"
| "is_PresolveReturned c = False"

subsection \<open>The object\<close>

record Highs =
  hmos' :: "HighsModelObject list"
  lp' :: HighsLp
  options' :: HighsOptions
  presolve' :: PresolveComponent
  solution' :: HighsSolution
  basis' :: HighsBasis
  info' :: HighsInfo
  model_status' :: HighsModelStatus
  scaled_model_status' :: HighsModelStatus
  calls' :: "stage_call list"

subsection \<open>The edits of the structural interface\<close>

text \<open>The member functions of \<open>HighsSimplexInterface\<close> that the editor calls, with
  their arguments (an array is a list).\<close>

datatype edit_op =
    AddRows int "real list" "real list" int "int list" "int list" "real list"
  | AddCols int "real list" "real list" "real list" int "int list" "int list" "real list"
  | ChangeObjectiveSense ObjSense
  | ChangeCostsSet int "int list" "real list"
  | ChangeCostsMask "int list" "real list"
  | ChangeColBoundsSet int "int list" "real list" "real list"
  | ChangeColBoundsInterval int int "real list" "real list"
  | ChangeColBoundsMask "int list" "real list" "real list"
  | ChangeRowBoundsSet int "int list" "real list" "real list"
  | ChangeRowBoundsMask "int list" "real list" "real list"
  | ChangeCoefficient int int real
  | DeleteColsInterval int int
  | DeleteColsSet int "int list"
  | DeleteColsMask "int list"
  | DeleteRowsInterval int int
  | DeleteRowsSet int "int list"
  | DeleteRowsMask "int list"

subsection \<open>The collaborators\<close>

text \<open>
  Constants, constructors and functions that \<open>Highs.cpp\<close> uses and that are declared in
  other files. A function that changes an argument passed by reference returns the new
  value. The functions that read a clock or solve take the stages recorded so far, so that
  two calls need not answer alike.

  \<^item> \<open>off_string\<close>, \<open>on_string\<close>, \<open>ipm_string\<close>, \<open>simplex_string\<close>,
    \<open>FILENAME_DEFAULT\<close>, \<open>HIGHS_CONST_INF\<close>, \<open>SIMPLEX_STRATEGY_CHOOSE\<close>: constants.
  \<^item> \<open>new_HighsModelObject\<close>: the fields of a newly constructed model object.
  \<^item> \<open>cleared_info\<close>: the value \<open>info_.clear()\<close> leaves in \<open>info_\<close>.
  \<^item> \<open>presolve_clear\<close>, \<open>presolve_init\<close>, \<open>presolve_run\<close>: \<open>presolve_.clear()\<close>,
    \<open>presolve_.init(lp_, timer_)\<close>, \<open>presolve_.run()\<close>.
  \<^item> \<open>postsolve\<close>: \<open>presolve_.data_.presolve_[0].postsolve(reduced, recovered)\<close>, from
    the component and the reduced solution to the status, the recovered solution and the
    column and row status of the recovered basis.
  \<^item> \<open>interface_edit\<close>: a member function of \<open>HighsSimplexInterface\<close> applied to
    \<open>hmos_[0]\<close>; it returns the status, the LP and the model object.
  \<^item> \<open>fopen_w\<close>: whether \<open>fopen(filename, "w")\<close> returns a file.
\<close>

record env =
  off_string :: string
  on_string :: string
  ipm_string :: string
  simplex_string :: string
  FILENAME_DEFAULT :: string
  HIGHS_CONST_INF :: real
  SIMPLEX_STRATEGY_CHOOSE :: int
  new_HighsModelObject :: HighsModelObject
  cleared_info :: HighsInfo
  setHsolOptions :: "HighsOptions \<Rightarrow> HighsOptions"
  getFilereader :: "string \<Rightarrow> bool"
  readModelFromFile :: "HighsOptions \<Rightarrow> string \<Rightarrow> FilereaderRetcode \<times> HighsLp"
  extractModelName :: "string \<Rightarrow> string"
  assessLp :: "HighsLp \<Rightarrow> HighsOptions \<Rightarrow> HighsStatus \<times> HighsLp"
  cleanBounds :: "HighsOptions \<Rightarrow> HighsLp \<Rightarrow> HighsStatus \<times> HighsLp"
  readRunHighsClock :: "stage_call list \<Rightarrow> nat \<Rightarrow> real"
  presolve_clear :: "PresolveComponent \<Rightarrow> PresolveComponent"
  presolve_init :: "HighsLp \<Rightarrow> PresolveComponent \<Rightarrow> PresolveComponent"
  presolve_run :: "PresolveComponent \<Rightarrow> HighsPresolveStatus \<times> PresolveComponent"
  postsolve :: "PresolveComponent \<Rightarrow> HighsSolution \<Rightarrow>
    HighsPostsolveStatus \<times> HighsSolution \<times> HighsBasisStatus list \<times> HighsBasisStatus list"
  solveLp :: "stage_call list \<Rightarrow> HighsOptions \<Rightarrow> HighsLp \<Rightarrow> string \<Rightarrow>
    HighsModelObject \<Rightarrow> HighsStatus \<times> HighsModelObject"
  resetModelStatusAndSolutionParams :: "HighsModelObject \<Rightarrow> HighsModelObject"
  interface_edit :: "edit_op \<Rightarrow> HighsOptions \<Rightarrow> HighsLp \<Rightarrow> HighsModelObject \<Rightarrow>
    HighsStatus \<times> HighsLp \<times> HighsModelObject"
  fopen_w :: "string \<Rightarrow> bool"

subsection \<open>Helpers declared in other files\<close>

text \<open>
  Modelled from the spec: \<open>interpretCallStatus\<close> is defined in HighsStatus.cpp, which
  is not among the sources. Section 6: the Orchestrator combines per-stage codes via a
  "worst wins" rule (Error dominates Warning dominates OK). The message argument only
  feeds the log.
\<close>

definition interpretCallStatus :: "HighsStatus \<Rightarrow> HighsStatus \<Rightarrow> HighsStatus" where
  "interpretCallStatus call_status from_return_status =
     (if call_status = Error \<or> from_return_status = Error then Error
      else if call_status = Warning \<or> from_return_status = Warning then Warning
      else OK)"

text \<open>
  Modelled from the spec: \<open>highsStatusFromHighsModelStatus\<close> is defined in
  HighsModelUtils.cpp, which is not among the sources. It is the column "Aggregate
  result" of the table of section 4.4. The table has no row for the status not-yet-set;
  \<open>beforeReturnFromRun\<close> handles it with the errors and asserts the return status
  Error for it.
\<close>

fun highsStatusFromHighsModelStatus :: "HighsModelStatus \<Rightarrow> HighsStatus" where
  "highsStatusFromHighsModelStatus NOTSET = Error"
| "highsStatusFromHighsModelStatus LOAD_ERROR = Error"
| "highsStatusFromHighsModelStatus MODEL_ERROR = Error"
| "highsStatusFromHighsModelStatus PRESOLVE_ERROR = Error"
| "highsStatusFromHighsModelStatus SOLVE_ERROR = Error"
| "highsStatusFromHighsModelStatus POSTSOLVE_ERROR = Error"
| "highsStatusFromHighsModelStatus MODEL_EMPTY = OK"
| "highsStatusFromHighsModelStatus PRIMAL_INFEASIBLE = OK"
| "highsStatusFromHighsModelStatus PRIMAL_UNBOUNDED = OK"
| "highsStatusFromHighsModelStatus OPTIMAL = OK"
| "highsStatusFromHighsModelStatus REACHED_DUAL_OBJECTIVE_VALUE_UPPER_BOUND = OK"
| "highsStatusFromHighsModelStatus REACHED_TIME_LIMIT = Warning"
| "highsStatusFromHighsModelStatus REACHED_ITERATION_LIMIT = Warning"

text \<open>
  Modelled from the spec: \<open>isSolutionConsistent\<close> is defined in HighsSolution.cpp, which
  is not among the sources. Section 4.2: postsolve fails with a dimension-mismatch error if
  the reduced solution does not match the reduced Model's size.
\<close>

definition isSolutionConsistent :: "HighsLp \<Rightarrow> HighsSolution \<Rightarrow> bool" where
  "isSolutionConsistent lp solution =
     (length (col_value solution) = numCol' lp \<and> length (col_dual solution) = numCol' lp \<and>
      length (row_value solution) = numRow' lp \<and> length (row_dual solution) = numRow' lp)"

text \<open>
  Modelled from the spec: \<open>negateReducedLpCost\<close> and \<open>negateReducedLpColDuals\<close> are
  members of the presolve component, whose code is not among the sources. Section 4.2: on
  a maximize-sense problem the reduced objective must be negated, and reduced-space column
  duals must be negated before postsolve and negated back after. The flag of
  \<open>negateReducedLpColDuals\<close> is \<open>true\<close> in the call before postsolve and \<open>false\<close> in
  the call after it.
\<close>

definition negateReducedLpCost :: "PresolveComponent \<Rightarrow> PresolveComponent" where
  "negateReducedLpCost p =
     p\<lparr>reduced_lp' := (reduced_lp' p)\<lparr>colCost' := map uminus (colCost' (reduced_lp' p))\<rparr>\<rparr>"

definition negateReducedLpColDuals :: "bool \<Rightarrow> PresolveComponent \<Rightarrow> PresolveComponent" where
  "negateReducedLpColDuals reduced p =
     p\<lparr>reduced_solution' :=
        (reduced_solution' p)\<lparr>col_dual := map uminus (col_dual (reduced_solution' p))\<rparr>\<rparr>"

text \<open>The accessors of the presolve component.\<close>

definition getReducedProblem :: "PresolveComponent \<Rightarrow> HighsLp" where
  "getReducedProblem p = reduced_lp' p"

definition setBasisInfo ::
  "HighsBasisStatus list \<Rightarrow> HighsBasisStatus list \<Rightarrow> PresolveComponent \<Rightarrow> PresolveComponent" where
  "setBasisInfo cs rs p = p\<lparr>presolve_col_status := cs, presolve_row_status := rs\<rparr>"

definition getColStatus :: "PresolveComponent \<Rightarrow> HighsBasisStatus list" where
  "getColStatus p = presolve_col_status p"

definition getRowStatus :: "PresolveComponent \<Rightarrow> HighsBasisStatus list" where
  "getRowStatus p = presolve_row_status p"

text \<open>
  \<open>copyHighsIterationCounts\<close> is overloaded: from \<open>info_\<close> to the counts of a model
  object before a solve, and back after it.
\<close>

definition copyHighsIterationCounts_from_info :: "HighsInfo \<Rightarrow> HighsIterationCounts" where
  "copyHighsIterationCounts_from_info info =
     \<lparr>simplex = simplex_iteration_count info, ipm = ipm_iteration_count info,
      crossover = crossover_iteration_count info\<rparr>"

definition copyHighsIterationCounts_to_info :: "HighsIterationCounts \<Rightarrow> HighsInfo \<Rightarrow> HighsInfo" where
  "copyHighsIterationCounts_to_info counts info =
     info\<lparr>simplex_iteration_count := simplex counts, ipm_iteration_count := ipm counts,
          crossover_iteration_count := crossover counts\<rparr>"

text \<open>\<open>std::vector::resize\<close>: the first \<open>n\<close> entries, padded with the default value.\<close>

definition resize :: "nat \<Rightarrow> 'a \<Rightarrow> 'a list \<Rightarrow> 'a list" where
  "resize n d xs = take n xs @ replicate (n - length xs) d"

definition HighsModelObject_ctor :: "env \<Rightarrow> lp_ref \<Rightarrow> HighsModelObject" where
  "HighsModelObject_ctor env r = (new_HighsModelObject env)\<lparr>hmo_lp' := r\<rparr>"

subsection \<open>Access to the model objects\<close>

definition hmo_update :: "nat \<Rightarrow> (HighsModelObject \<Rightarrow> HighsModelObject) \<Rightarrow> Highs \<Rightarrow> Highs" where
  "hmo_update i f s = s\<lparr>hmos' := (hmos' s)[i := f (hmos' s ! i)]\<rparr>"

definition lp_of :: "Highs \<Rightarrow> lp_ref \<Rightarrow> HighsLp" where
  "lp_of s r = (case r of OriginalLp \<Rightarrow> lp' s | ReducedLp \<Rightarrow> reduced_lp' (presolve' s))"

text \<open>The assignment \<open>hmos_[i].lp_.lp_name_ = name\<close>.\<close>

definition set_lp_name :: "nat \<Rightarrow> string \<Rightarrow> Highs \<Rightarrow> Highs" where
  "set_lp_name i name s =
     (case hmo_lp' (hmos' s ! i) of
        OriginalLp \<Rightarrow> s\<lparr>lp' := (lp' s)\<lparr>lp_name' := name\<rparr>\<rparr>
      | ReducedLp \<Rightarrow>
          s\<lparr>presolve' := (presolve' s)\<lparr>reduced_lp' := (reduced_lp' (presolve' s))\<lparr>lp_name' := name\<rparr>\<rparr>\<rparr>)"

definition record_call :: "stage_call \<Rightarrow> Highs \<Rightarrow> Highs" where
  "record_call c s = s\<lparr>calls' := calls' s @ [c]\<rparr>"

subsection \<open>Clearing and the finalizer (lines 1462-1468 and 1810-1937)\<close>

definition haveHmo :: "Highs \<Rightarrow> bool" where
  "haveHmo s = (length (hmos' s) > 0)"

definition clearModelStatus :: "Highs \<Rightarrow> Highs" where
  "clearModelStatus s = s\<lparr>model_status' := NOTSET, scaled_model_status' := NOTSET\<rparr>"

definition clearSolution :: "Highs \<Rightarrow> Highs" where
  "clearSolution s =
     s\<lparr>info' := (info' s)\<lparr>primal_status := STATUS_NOTSET, dual_status := STATUS_NOTSET\<rparr>,
       solution' := (solution' s)\<lparr>col_value := resize 0 0 (col_value (solution' s)),
                                  col_dual := resize 0 0 (col_dual (solution' s)),
                                  row_value := resize 0 0 (row_value (solution' s)),
                                  row_dual := resize 0 0 (row_dual (solution' s))\<rparr>\<rparr>"

definition clearBasis :: "Highs \<Rightarrow> Highs" where
  "clearBasis s =
     s\<lparr>basis' := (basis' s)\<lparr>valid' := False,
                            col_status := resize 0 LOWER (col_status (basis' s)),
                            row_status := resize 0 LOWER (row_status (basis' s))\<rparr>\<rparr>"

definition clearInfo :: "env \<Rightarrow> Highs \<Rightarrow> Highs" where
  "clearInfo env s = s\<lparr>info' := cleared_info env\<rparr>"

definition clearSolver :: "env \<Rightarrow> Highs \<Rightarrow> HighsStatus \<times> Highs" where
  "clearSolver env s = (OK, clearInfo env (clearBasis (clearSolution (clearModelStatus s))))"

text \<open>The switch of \<open>beforeReturnFromRun\<close> on \<open>scaled_model_status_\<close>.\<close>

fun finalise_for_status :: "env \<Rightarrow> HighsModelStatus \<Rightarrow> Highs \<Rightarrow> Highs" where
  "finalise_for_status env NOTSET s = snd (clearSolver env s)"
| "finalise_for_status env LOAD_ERROR s = snd (clearSolver env s)"
| "finalise_for_status env MODEL_ERROR s = snd (clearSolver env s)"
| "finalise_for_status env PRESOLVE_ERROR s = snd (clearSolver env s)"
| "finalise_for_status env SOLVE_ERROR s = snd (clearSolver env s)"
| "finalise_for_status env POSTSOLVE_ERROR s = snd (clearSolver env s)"
| "finalise_for_status env MODEL_EMPTY s = clearInfo env (clearBasis (clearSolution s))"
| "finalise_for_status env PRIMAL_INFEASIBLE s = clearSolution s"
| "finalise_for_status env PRIMAL_UNBOUNDED s = clearInfo env (clearSolution s)"
| "finalise_for_status env OPTIMAL s = s"
| "finalise_for_status env REACHED_DUAL_OBJECTIVE_VALUE_UPPER_BOUND s =
     clearInfo env (clearBasis (clearSolution s))"
| "finalise_for_status env REACHED_TIME_LIMIT s = clearInfo env (clearBasis (clearSolution s))"
| "finalise_for_status env REACHED_ITERATION_LIMIT s =
     clearInfo env (clearBasis (clearSolution s))"

text \<open>
  \<open>beforeReturnFromRun\<close> takes the return status by reference and only asserts on it,
  so the model has the object alone.
\<close>

definition beforeReturnFromRun :: "env \<Rightarrow> Highs \<Rightarrow> Highs" where
  "beforeReturnFromRun env s =
     (if length (hmos' s) = 0 then snd (clearSolver env s)
      else
        let s1 = (if length (hmos' s) > 1 then s\<lparr>hmos' := butlast (hmos' s)\<rparr> else s)
        in finalise_for_status env (scaled_model_status' s1) s1)"

subsection \<open>Loading a model (lines 38-41 and 200-274)\<close>


definition reset :: "env \<Rightarrow> Highs \<Rightarrow> HighsStatus \<times> Highs" where
  "reset env s =
     (let (call_status, s1) = clearSolver env s;
          return_status = interpretCallStatus call_status OK
      in if return_status = Error then (return_status, s1)
         else (OK, s1\<lparr>hmos' := [] @ [HighsModelObject_ctor env OriginalLp],
                       presolve' := presolve_clear env (presolve' s1)\<rparr>))"

definition passModel :: "env \<Rightarrow> HighsLp \<Rightarrow> Highs \<Rightarrow> HighsStatus \<times> Highs" where
  "passModel env lp s =
     (let (call_status, lp1) = assessLp env lp (options' s);
          s1 = s\<lparr>lp' := lp1\<rparr>;
          return_status = interpretCallStatus call_status OK
      in if return_status = Error then (return_status, s1) else reset env s1)"

definition readModel :: "env \<Rightarrow> string \<Rightarrow> Highs \<Rightarrow> HighsStatus \<times> Highs" where
  "readModel env filename s =
     (if \<not> getFilereader env filename then (Error, s)
      else
        let s1 = s\<lparr>options' := (options' s)\<lparr>model_file := filename\<rparr>\<rparr>;
            (call_code, model) = readModelFromFile env (options' s1) filename;
            return_status = (if call_code \<noteq> FilereaderRetcode_OK
                             then interpretCallStatus Error OK else OK)
        in if call_code \<noteq> FilereaderRetcode_OK \<and> return_status = Error
           then (return_status, s1)
           else
             let model1 = model\<lparr>model_name' := extractModelName env filename\<rparr>;
                 (call_status, s2) = passModel env model1 s1
             in (interpretCallStatus call_status return_status, s2))"

definition clearModel :: "env \<Rightarrow> HighsLp \<Rightarrow> Highs \<Rightarrow> HighsStatus \<times> Highs" where
  "clearModel env empty_lp s =
     (let s1 = s\<lparr>hmos' := [], lp' := empty_lp\<rparr>;
          s2 = s1\<lparr>hmos' := hmos' s1 @ [HighsModelObject_ctor env OriginalLp]\<rparr>;
          (call_status, s3) = clearSolver env s2
      in (interpretCallStatus call_status OK, s3))"

subsection \<open>The stages (lines 1519-1652 and 1696-1715)\<close>

text \<open>
  \<open>runPresolve\<close> up to the call of \<open>presolve_.run()\<close>: the early returns are on the
  left, the object with the component initialised is on the right. The clock is read
  twice, before and after \<open>presolve_.init\<close>.
\<close>

definition runPresolve_init :: "env \<Rightarrow> Highs \<Rightarrow> (HighsPresolveStatus \<times> Highs) + Highs" where
  "runPresolve_init env s =
     (if presolve (options' s) = off_string env then Inl (NotPresolved, s)
      else if numCol' (lp' s) = 0 \<and> numRow' (lp' s) = 0 then Inl (NullError, s)
      else
        let s1 = (if has_run' (presolve' s)
                  then s\<lparr>presolve' := presolve_clear env (presolve' s)\<rparr> else s);
            start_presolve = readRunHighsClock env (calls' s1) 0;
            limited = (time_limit (options' s1) > 0 \<and>
                       time_limit (options' s1) < HIGHS_CONST_INF env);
            left = time_limit (options' s1) - start_presolve
        in if limited \<and> left \<le> 0 then Inl (Timeout, s1)
           else
             let s2 = (if limited
                       then s1\<lparr>presolve' := (presolve' s1)\<lparr>presolve_time_limit := left\<rparr>\<rparr>
                       else s1);
                 s3 = s2\<lparr>presolve' := presolve_init env (lp' s2) (presolve' s2)\<rparr>;
                 current = readRunHighsClock env (calls' s3) 1;
                 time_init = current - start_presolve;
                 left1 = presolve_time_limit (presolve' s3) - time_init
             in if limited \<and> left1 \<le> 0 then Inl (Timeout, s3)
                else Inr (if limited
                          then s3\<lparr>presolve' :=
                                 (presolve' s3)\<lparr>presolve_time_limit := time_limit (options' s3)\<rparr>\<rparr>
                          else s3))"

text \<open>The switch of \<open>runPresolve\<close> on \<open>presolve_.presolve_status_\<close> that updates the
  reduction counts.\<close>

definition update_reduction_counts :: "HighsLp \<Rightarrow> PresolveComponent \<Rightarrow> PresolveComponent" where
  "update_reduction_counts lp p =
     (case presolve_status' p of
        Reduced \<Rightarrow>
          p\<lparr>n_cols_removed := int (numCol' lp) - int (numCol' (getReducedProblem p)),
            n_rows_removed := int (numRow' lp) - int (numRow' (getReducedProblem p)),
            n_nnz_removed := int (length (Avalue' lp)) - int (length (Avalue' (getReducedProblem p)))\<rparr>
      | ReducedToEmpty \<Rightarrow>
          p\<lparr>n_cols_removed := int (numCol' lp), n_rows_removed := int (numRow' lp),
            n_nnz_removed := int (length (Avalue' lp))\<rparr>
      | _ \<Rightarrow> p)"

definition runPresolve :: "env \<Rightarrow> Highs \<Rightarrow> HighsPresolveStatus \<times> Highs" where
  "runPresolve env s =
     (case runPresolve_init env s of
        Inl r \<Rightarrow> r
      | Inr s1 \<Rightarrow>
          let (presolve_return_status, p) = presolve_run env (presolve' s1);
              p1 = (if presolve_return_status = Reduced \<and> sense' (lp' s1) = MAXIMIZE
                    then negateReducedLpCost p else p)
          in (presolve_return_status, s1\<lparr>presolve' := update_reduction_counts (lp' s1) p1\<rparr>))"

definition runPostsolve :: "env \<Rightarrow> Highs \<Rightarrow> HighsPostsolveStatus \<times> Highs" where
  "runPostsolve env s =
     (if \<not> isSolutionConsistent (getReducedProblem (presolve' s)) (reduced_solution' (presolve' s))
      then (ReducedSolutionDimenionsError, s)
      else if presolve_status' (presolve' s) \<noteq> Reduced \<and>
              presolve_status' (presolve' s) \<noteq> ReducedToEmpty
      then (NoPostsolve, s)
      else
        let p1 = (if sense' (lp' s) = MAXIMIZE
                  then negateReducedLpColDuals True (presolve' s) else presolve' s);
            s1 = record_call (PostsolveCalled (reduced_solution' p1)) (s\<lparr>presolve' := p1\<rparr>);
            (postsolve_status, recovered, cs, rs) = postsolve env p1 (reduced_solution' p1);
            p2 = p1\<lparr>recovered_solution' := recovered, presolve_col_status := cs,
                    presolve_row_status := rs\<rparr>;
            s2 = s1\<lparr>presolve' := p2\<rparr>
        in if postsolve_status \<noteq> SolutionRecovered then (postsolve_status, s2)
           else (SolutionRecovered,
                 if sense' (lp' s2) = MAXIMIZE
                 then s2\<lparr>presolve' := negateReducedLpColDuals False (presolve' s2)\<rparr> else s2))"

text \<open>
  \<open>runLpSolver\<close>: the model index is a natural number, so only its upper bound is
  checked. \<open>solveLp\<close> changes the model object in place, also when it fails.
\<close>

definition runLpSolver :: "env \<Rightarrow> nat \<Rightarrow> string \<Rightarrow> Highs \<Rightarrow> HighsStatus \<times> Highs" where
  "runLpSolver env model_index message s =
     (if \<not> model_index < length (hmos' s) then (Error, s)
      else
        let s1 = hmo_update model_index
                   (\<lambda>h. h\<lparr>hmo_iteration_counts' := copyHighsIterationCounts_from_info (info' s)\<rparr>) s;
            model = hmos' s1 ! model_index;
            s2 = record_call (SolveLpCalled model_index message (options' s1)) s1;
            (call_status, model1) =
               solveLp env (calls' s1) (options' s1) (lp_of s1 (hmo_lp' model)) message model;
            s3 = hmo_update model_index (\<lambda>h. model1) s2;
            return_status = interpretCallStatus call_status OK
        in if return_status = Error then (return_status, s3)
           else (return_status,
                 s3\<lparr>info' := copyHighsIterationCounts_to_info
                                (hmo_iteration_counts' (hmos' s3 ! model_index)) (info' s3)\<rparr>))"

definition getHighsModelStatusAndInfo :: "nat \<Rightarrow> Highs \<Rightarrow> bool \<times> Highs" where
  "getHighsModelStatusAndInfo solved_hmo s =
     (if \<not> haveHmo s then (False, s)
      else
        let h = hmos' s ! solved_hmo;
            solution_params = hmo_unscaled_solution_params' h
        in (True,
            s\<lparr>model_status' := hmo_unscaled_model_status' h,
              scaled_model_status' := hmo_scaled_model_status' h,
              info' := (info' s)\<lparr>
                primal_status := sp_primal_status solution_params,
                dual_status := sp_dual_status solution_params,
                objective_function_value := sp_objective_function_value solution_params,
                num_primal_infeasibilities := sp_num_primal_infeasibilities solution_params,
                max_primal_infeasibility := sp_max_primal_infeasibility solution_params,
                sum_primal_infeasibilities := sp_sum_primal_infeasibilities solution_params,
                num_dual_infeasibilities := sp_num_dual_infeasibilities solution_params,
                max_dual_infeasibility := sp_max_dual_infeasibility solution_params,
                sum_dual_infeasibilities := sp_sum_dual_infeasibilities solution_params\<rparr>\<rparr>))"

subsection \<open>The pipeline of run (lines 302-825)\<close>

text \<open>
  \<open>run\<close> is cut into the parts below. A part that can leave \<open>run\<close> returns a sum:
  on the left the value \<open>run\<close> returns and the object it leaves, on the right what the
  rest of \<open>run\<close> goes on with.
\<close>

text \<open>Lines 741-824: harvest the status of the solved model object and finalise.\<close>

definition run_finish :: "env \<Rightarrow> nat \<Rightarrow> HighsStatus \<Rightarrow> Highs \<Rightarrow> HighsStatus \<times> Highs" where
  "run_finish env solved_hmo return_status s =
     (let (ok, s1) = getHighsModelStatusAndInfo solved_hmo s
      in if \<not> ok then (Error, beforeReturnFromRun env s1)
         else
           let s2 = s1\<lparr>solution' := hmo_solution' (hmos' s1 ! 0)\<rparr>;
               s3 = s2\<lparr>basis' := hmo_basis' (hmos' s2 ! 0)\<rparr>;
               call_status = highsStatusFromHighsModelStatus (scaled_model_status' s3);
               return_status1 = interpretCallStatus call_status return_status
           in (return_status1, beforeReturnFromRun env s3))"

text \<open>Lines 464-497: the cases \<open>NotPresolved\<close> and \<open>NotReduced\<close> solve the original LP.\<close>

definition run_solve_original ::
  "env \<Rightarrow> string \<Rightarrow> string \<Rightarrow> nat \<Rightarrow> HighsStatus \<Rightarrow> Highs \<Rightarrow>
   (HighsStatus \<times> Highs) + (nat \<times> HighsStatus \<times> Highs)" where
  "run_solve_original env name message solved_hmo return_status s =
     (let s1 = set_lp_name solved_hmo name s;
          (call_status, s2) = runLpSolver env solved_hmo message s1;
          return_status1 = interpretCallStatus call_status return_status
      in if return_status1 = Error then Inl (return_status1, beforeReturnFromRun env s2)
         else Inr (solved_hmo, return_status1, s2))"

text \<open>Lines 498-539: the case \<open>Reduced\<close> appends a model object for the reduced LP and
  solves it with the dual objective cut-off switched off.\<close>

definition run_solve_reduced ::
  "env \<Rightarrow> nat \<Rightarrow> HighsStatus \<Rightarrow> Highs \<Rightarrow>
   (HighsStatus \<times> Highs) + (nat \<times> HighsStatus \<times> Highs)" where
  "run_solve_reduced env presolve_hmo return_status s =
     (let (call_status, reduced_lp) = cleanBounds env (options' s) (getReducedProblem (presolve' s));
          s1 = s\<lparr>presolve' := (presolve' s)\<lparr>reduced_lp' := reduced_lp\<rparr>\<rparr>
      in if interpretCallStatus call_status return_status = Error then Inl (Error, s1)
         else
           let s2 = s1\<lparr>hmos' := hmos' s1 @ [HighsModelObject_ctor env ReducedLp]\<rparr>;
               solved_hmo = presolve_hmo;
               s3 = set_lp_name solved_hmo ''Presolved LP'' s2;
               save_dual_objective_value_upper_bound =
                 dual_objective_value_upper_bound (options' s3);
               s4 = s3\<lparr>options' :=
                      (options' s3)\<lparr>dual_objective_value_upper_bound := HIGHS_CONST_INF env\<rparr>\<rparr>;
               (call_status1, s5) = runLpSolver env solved_hmo ''Solving the presolved LP'' s4;
               s6 = s5\<lparr>options' :=
                      (options' s5)\<lparr>dual_objective_value_upper_bound :=
                                      save_dual_objective_value_upper_bound\<rparr>\<rparr>;
               return_status1 = interpretCallStatus call_status1 return_status
           in if return_status1 = Error then Inl (return_status1, beforeReturnFromRun env s6)
              else Inr (solved_hmo, return_status1, s6))"

text \<open>Lines 551-576 and 591-605: the status found by presolve, or the presolve error, is
  written to the object and to \<open>hmos_[0]\<close>, and the run is finalised.\<close>

definition run_presolve_status ::
  "env \<Rightarrow> HighsModelStatus \<Rightarrow> HighsStatus \<Rightarrow> Highs \<Rightarrow> HighsStatus \<times> Highs" where
  "run_presolve_status env status return_status s =
     (let s1 = s\<lparr>model_status' := status\<rparr>;
          s2 = s1\<lparr>scaled_model_status' := model_status' s1\<rparr>;
          s3 = hmo_update 0 (\<lambda>h. h\<lparr>hmo_unscaled_model_status' := model_status' s2\<rparr>) s2;
          s4 = hmo_update 0 (\<lambda>h. h\<lparr>hmo_scaled_model_status' := model_status' s3\<rparr>) s3
      in (return_status, beforeReturnFromRun env s4))"

text \<open>Lines 463-606: the switch on the presolve status. \<open>original_hmo\<close> is 0.\<close>

fun run_presolve_switch ::
  "env \<Rightarrow> HighsPresolveStatus \<Rightarrow> nat \<Rightarrow> HighsStatus \<Rightarrow> Highs \<Rightarrow>
   (HighsStatus \<times> Highs) + (nat \<times> HighsStatus \<times> Highs)" where
  "run_presolve_switch env NotPresolved presolve_hmo return_status s =
     run_solve_original env ''Original LP'' ''Not presolved: solving the LP'' 0 return_status s"
| "run_presolve_switch env NotReduced presolve_hmo return_status s =
     run_solve_original env ''Unreduced LP''
       ''Problem not reduced by presolve: solving the LP'' 0 return_status s"
| "run_presolve_switch env Reduced presolve_hmo return_status s =
     run_solve_reduced env presolve_hmo return_status s"
| "run_presolve_switch env ReducedToEmpty presolve_hmo return_status s =
     (let s1 = hmo_update 0 (\<lambda>h. h\<lparr>hmo_unscaled_model_status' := OPTIMAL\<rparr>) s;
          s2 = hmo_update 0
                 (\<lambda>h. h\<lparr>hmo_scaled_model_status' := hmo_unscaled_model_status' h\<rparr>) s1
      in Inr (0, return_status, s2))"
| "run_presolve_switch env Infeasible presolve_hmo return_status s =
     Inl (run_presolve_status env PRIMAL_INFEASIBLE OK s)"
| "run_presolve_switch env Unbounded presolve_hmo return_status s =
     Inl (run_presolve_status env PRIMAL_UNBOUNDED OK s)"
| "run_presolve_switch env Timeout presolve_hmo return_status s =
     Inl (Warning, s\<lparr>model_status' := PRESOLVE_ERROR\<rparr>)"
| "run_presolve_switch env OptionsError presolve_hmo return_status s =
     Inl (Warning, s\<lparr>model_status' := PRESOLVE_ERROR\<rparr>)"
| "run_presolve_switch env other presolve_hmo return_status s =
     Inl (run_presolve_status env PRESOLVE_ERROR Error s)"

text \<open>Lines 645-690: the hot start of the original LP from the basis that postsolve
  recovered. \<open>options\<close> is a reference to \<open>options_\<close>.\<close>

definition run_hot_start ::
  "env \<Rightarrow> HighsStatus \<Rightarrow> Highs \<Rightarrow> (HighsStatus \<times> Highs) + (nat \<times> HighsStatus \<times> Highs)" where
  "run_hot_start env return_status s =
     (let s1 = hmo_update 0 (resetModelStatusAndSolutionParams env) s;
          s2 = hmo_update 0 (\<lambda>h. h\<lparr>hmo_solution' := recovered_solution' (presolve' s1)\<rparr>) s1;
          s3 = hmo_update 0
                 (\<lambda>h. h\<lparr>hmo_basis' := (hmo_basis' h)\<lparr>col_status := getColStatus (presolve' s2),
                                                      row_status := getRowStatus (presolve' s2),
                                                      valid' := True\<rparr>\<rparr>) s2;
          solved_hmo = 0;
          save_options = options' s3;
          options1 = (if solver (options' s3) = ipm_string env
                      then (options' s3)\<lparr>solver := simplex_string env\<rparr> else options' s3);
          options2 = options1\<lparr>simplex_strategy := SIMPLEX_STRATEGY_CHOOSE env,
                              highs_min_threads := 1, highs_max_threads := 1\<rparr>;
          s4 = set_lp_name solved_hmo ''Postsolve LP'' (s3\<lparr>options' := options2\<rparr>);
          (call_status, s5) =
             runLpSolver env solved_hmo
               ''Solving the original LP from the solution after postsolve'' s4;
          return_status1 = interpretCallStatus call_status return_status;
          s6 = s5\<lparr>options' := save_options\<rparr>
      in if return_status1 = Error then Inl (return_status1, beforeReturnFromRun env s6)
         else Inr (solved_hmo, return_status1, s6))"

text \<open>Lines 691-702: postsolve did not recover a solution.\<close>

definition run_postsolve_failed :: "env \<Rightarrow> Highs \<Rightarrow> HighsStatus \<times> Highs" where
  "run_postsolve_failed env s =
     (let s1 = s\<lparr>model_status' := POSTSOLVE_ERROR\<rparr>;
          s2 = s1\<lparr>scaled_model_status' := model_status' s1\<rparr>;
          s3 = hmo_update 0 (\<lambda>h. h\<lparr>hmo_unscaled_model_status' := model_status' s2\<rparr>) s2;
          s4 = hmo_update 0 (\<lambda>h. h\<lparr>hmo_scaled_model_status' := model_status' s3\<rparr>) s3
      in (Error, beforeReturnFromRun env s4))"

text \<open>Lines 616-628: the solution and basis of the solved model object are handed to the
  presolve component; after \<open>ReducedToEmpty\<close> the solution is emptied first.\<close>

definition prepare_postsolve :: "HighsPresolveStatus \<Rightarrow> nat \<Rightarrow> Highs \<Rightarrow> Highs" where
  "prepare_postsolve presolve_status solved_hmo s =
     (let s1 = (if presolve_status = ReducedToEmpty
                then hmo_update solved_hmo
                       (\<lambda>h. h\<lparr>hmo_solution' :=
                             \<lparr>col_value = resize 0 0 (col_value (hmo_solution' h)),
                              col_dual = resize 0 0 (col_dual (hmo_solution' h)),
                              row_value = resize 0 0 (row_value (hmo_solution' h)),
                              row_dual = resize 0 0 (row_dual (hmo_solution' h))\<rparr>\<rparr>) s
                else s);
          s2 = s1\<lparr>presolve' :=
                 (presolve' s1)\<lparr>reduced_solution' := hmo_solution' (hmos' s1 ! solved_hmo)\<rparr>\<rparr>
      in s2\<lparr>presolve' :=
              setBasisInfo (col_status (hmo_basis' (hmos' s2 ! solved_hmo)))
                (row_status (hmo_basis' (hmos' s2 ! solved_hmo))) (presolve' s2)\<rparr>)"

text \<open>Lines 607-711: postsolve, when the solved model object is optimal and presolve
  reduced the LP.\<close>

definition run_postsolve ::
  "env \<Rightarrow> HighsPresolveStatus \<Rightarrow> nat \<Rightarrow> HighsStatus \<Rightarrow> Highs \<Rightarrow>
   (HighsStatus \<times> Highs) + (nat \<times> HighsStatus \<times> Highs)" where
  "run_postsolve env presolve_status solved_hmo return_status s =
     (if hmo_scaled_model_status' (hmos' s ! solved_hmo) = OPTIMAL then
        if presolve_status = Reduced \<or> presolve_status = ReducedToEmpty then
          let (postsolve_status, s1) =
                 runPostsolve env (prepare_postsolve presolve_status solved_hmo s);
              s2 = record_call (PostsolveReturned postsolve_status) s1
          in if postsolve_status = SolutionRecovered then run_hot_start env return_status s2
             else Inl (run_postsolve_failed env s2)
        else Inr (solved_hmo, return_status, s)
      else
        let s1 = hmo_update 0
                   (\<lambda>h. h\<lparr>hmo_unscaled_model_status' :=
                         hmo_unscaled_model_status' (hmos' s ! solved_hmo)\<rparr>) s;
            s2 = hmo_update 0
                   (\<lambda>h. h\<lparr>hmo_scaled_model_status' :=
                         hmo_scaled_model_status' (hmos' s1 ! solved_hmo)\<rparr>) s1
        in Inr (solved_hmo, return_status, s2))"

text \<open>Lines 436-444: crossover is forced for the interior point solver, and the scaled
  status of the original model object is reset.\<close>

definition prepare_presolve :: "env \<Rightarrow> Highs \<Rightarrow> Highs" where
  "prepare_presolve env s =
     (let s1 = (if solver (options' s) = ipm_string env \<and> \<not> run_crossover (options' s)
                then s\<lparr>options' := (options' s)\<lparr>run_crossover := True\<rparr>\<rparr> else s)
      in hmo_update 0 (\<lambda>h. h\<lparr>hmo_scaled_model_status' := NOTSET\<rparr>) s1)"

text \<open>Lines 433-711: the branch taken when there is no valid basis and presolve is not
  off.\<close>

definition run_with_presolve ::
  "env \<Rightarrow> nat \<Rightarrow> HighsStatus \<Rightarrow> Highs \<Rightarrow> HighsStatus \<times> Highs" where
  "run_with_presolve env presolve_hmo return_status s =
     (let (presolve_status, s1) = runPresolve env (prepare_presolve env s);
          s2 = record_call (PresolveReturned presolve_status) s1
      in case run_presolve_switch env presolve_status presolve_hmo return_status s2 of
           Inl r \<Rightarrow> r
         | Inr (solved_hmo, return_status1, s3) \<Rightarrow>
             (case run_postsolve env presolve_status solved_hmo return_status1 s3 of
                Inl r \<Rightarrow> r
              | Inr (solved_hmo1, return_status2, s4) \<Rightarrow>
                  run_finish env solved_hmo1 return_status2 s4))"

text \<open>Lines 712-731: there is a valid basis or presolve is off.\<close>

definition run_without_presolve :: "env \<Rightarrow> HighsStatus \<Rightarrow> Highs \<Rightarrow> HighsStatus \<times> Highs" where
  "run_without_presolve env return_status s =
     (let solved_hmo = 0;
          s1 = set_lp_name solved_hmo ''LP without presolve or with basis'' s;
          s2 = (if valid' (basis' s1) then hmo_update solved_hmo (\<lambda>h. h\<lparr>hmo_basis' := basis' s1\<rparr>) s1
                else s1);
          (call_status, s3) =
             runLpSolver env solved_hmo ''Solving LP without presolve or with basis'' s2;
          return_status1 = interpretCallStatus call_status return_status
      in if return_status1 = Error then (return_status1, beforeReturnFromRun env s3)
         else run_finish env solved_hmo return_status1 s3)"

text \<open>Lines 365-731: \<open>run\<close> once there is a model object.\<close>

definition run_loaded :: "env \<Rightarrow> HighsStatus \<Rightarrow> Highs \<Rightarrow> HighsStatus \<times> Highs" where
  "run_loaded env return_status s =
     (let s1 = hmo_update 0 (\<lambda>h. h\<lparr>hmo_scaled_model_status' := NOTSET\<rparr>) s;
          s2 = hmo_update 0 (\<lambda>h. h\<lparr>hmo_unscaled_model_status' := NOTSET\<rparr>) s1;
          s3 = s2\<lparr>model_status' := hmo_scaled_model_status' (hmos' s2 ! 0)\<rparr>;
          s4 = s3\<lparr>scaled_model_status' := hmo_unscaled_model_status' (hmos' s3 ! 0)\<rparr>
      in if numCol' (lp' s4) = 0 then
           let s5 = s4\<lparr>model_status' := MODEL_EMPTY\<rparr>;
               s6 = s5\<lparr>scaled_model_status' := model_status' s5\<rparr>;
               s7 = hmo_update 0 (\<lambda>h. h\<lparr>hmo_unscaled_model_status' := model_status' s6\<rparr>) s6;
               s8 = hmo_update 0 (\<lambda>h. h\<lparr>hmo_scaled_model_status' := model_status' s7\<rparr>) s7;
               return_status1 = highsStatusFromHighsModelStatus (model_status' s8)
           in (return_status1, beforeReturnFromRun env s8)
         else
           let presolve_hmo = length (hmos' s4)
           in if \<not> valid' (basis' s4) \<and> presolve (options' s4) \<noteq> off_string env
              then run_with_presolve env presolve_hmo return_status s4
              else run_without_presolve env return_status s4)"

definition run :: "env \<Rightarrow> Highs \<Rightarrow> HighsStatus \<times> Highs" where
  "run env s0 =
     (let s = record_call (RunCalled (valid' (basis' s0)) (presolve (options' s0))) s0;
          return_status = OK;
          s1 = (if run_as_hsol (options' s) then s\<lparr>options' := setHsolOptions env (options' s)\<rparr>
                else s)
      in if length (hmos' s1) = 0 then
           if model_file (options' s1) = FILENAME_DEFAULT env
           then (Error, beforeReturnFromRun env s1)
           else
             let (call_status, s2) = readModel env (model_file (options' s1)) s1;
                 return_status1 = interpretCallStatus call_status return_status
             in if return_status1 = Error then (return_status1, beforeReturnFromRun env s2)
                else run_loaded env return_status1 s2
         else run_loaded env return_status s1)"

subsection \<open>Reconciling the unscaled status (lines 1738-1808)\<close>

text \<open>The flag \<open>report\<close> of \<open>unscaledOptimal\<close> only prints.\<close>

definition unscaledOptimal :: "real \<Rightarrow> real \<Rightarrow> Highs \<Rightarrow> bool" where
  "unscaledOptimal unscaled_primal_feasibility_tolerance unscaled_dual_feasibility_tolerance s =
     (if scaled_model_status' s = OPTIMAL then
        if max_primal_infeasibility (info' s) > unscaled_primal_feasibility_tolerance \<or>
           max_dual_infeasibility (info' s) > unscaled_dual_feasibility_tolerance
        then False else True
      else False)"

text \<open>
  \<open>use_model_status\<close> is passed by reference: the function takes the value the caller
  holds and returns the value it leaves there.
\<close>

definition getUseModelStatus ::
  "env \<Rightarrow> HighsModelStatus \<Rightarrow> real \<Rightarrow> real \<Rightarrow> bool \<Rightarrow> Highs \<Rightarrow>
   HighsStatus \<times> HighsModelStatus \<times> Highs" where
  "getUseModelStatus env use_model_status unscaled_primal_feasibility_tolerance
     unscaled_dual_feasibility_tolerance rerun_from_logical_basis s =
     (if model_status' s \<noteq> NOTSET then (OK, model_status' s, s)
      else if unscaledOptimal unscaled_primal_feasibility_tolerance
                unscaled_dual_feasibility_tolerance s
      then (OK, OPTIMAL, s)
      else if rerun_from_logical_basis then
        let save_presolve = presolve (options' s);
            s1 = s\<lparr>basis' := (basis' s)\<lparr>valid' := False\<rparr>\<rparr>;
            s2 = s1\<lparr>options' := (options' s1)\<lparr>presolve := on_string env\<rparr>\<rparr>;
            (call_status, s3) = run env s2;
            return_status = interpretCallStatus call_status OK;
            s4 = s3\<lparr>options' := (options' s3)\<lparr>presolve := save_presolve\<rparr>\<rparr>
        in if return_status = Error then (return_status, use_model_status, s4)
           else if model_status' s4 \<noteq> NOTSET then (OK, model_status' s4, s4)
           else if unscaledOptimal unscaled_primal_feasibility_tolerance
                     unscaled_dual_feasibility_tolerance s4
           then (OK, OPTIMAL, s4)
           else (OK, use_model_status, s4)
      else (OK, model_status' s, s))"

subsection \<open>The incremental editor (lines 1081-1456 and 1675-1694)\<close>

definition updateHighsSolutionBasis :: "Highs \<Rightarrow> bool \<times> Highs" where
  "updateHighsSolutionBasis s =
     (if \<not> haveHmo s then (False, s)
      else
        let s1 = s\<lparr>solution' :=
                   \<lparr>col_value = resize (numCol' (lp' s)) 0 (col_value (solution' s)),
                    col_dual = resize (numCol' (lp' s)) 0 (col_dual (solution' s)),
                    row_value = resize (numRow' (lp' s)) 0 (row_value (solution' s)),
                    row_dual = resize (numRow' (lp' s)) 0 (row_dual (solution' s))\<rparr>\<rparr>;
            s2 = hmo_update 0
                   (\<lambda>h. h\<lparr>hmo_solution' :=
                         \<lparr>col_value = resize (numCol' (lp' s1)) 0 (col_value (hmo_solution' h)),
                          col_dual = resize (numCol' (lp' s1)) 0 (col_dual (hmo_solution' h)),
                          row_value = resize (numRow' (lp' s1)) 0 (row_value (hmo_solution' h)),
                          row_dual = resize (numRow' (lp' s1)) 0 (row_dual (hmo_solution' h))\<rparr>\<rparr>) s1
        in if valid' (hmo_basis' (hmos' s2 ! 0))
           then (True, s2\<lparr>basis' := hmo_basis' (hmos' s2 ! 0)\<rparr>)
           else (True,
                 s2\<lparr>basis' := (basis' s2)\<lparr>valid' := False,
                                          col_status := resize (numCol' (lp' s2)) LOWER
                                                          (col_status (basis' s2)),
                                          row_status := resize (numRow' (lp' s2)) LOWER
                                                          (row_status (basis' s2))\<rparr>\<rparr>))"

text \<open>
  Every mutating operation of the editor has one body: it checks \<open>haveHmo\<close>, builds a
  \<open>HighsSimplexInterface\<close> on \<open>hmos_[0]\<close>, calls one member function of it and
  interprets the status. The operations that add or delete rows or columns then call
  \<open>updateHighsSolutionBasis\<close>; the flag \<open>update\<close> tells whether the operation does.
  The interface works on \<open>hmos_[0]\<close> and, through its reference, on \<open>lp_\<close>.
\<close>

definition structural_edit :: "env \<Rightarrow> bool \<Rightarrow> edit_op \<Rightarrow> Highs \<Rightarrow> bool \<times> Highs" where
  "structural_edit env update op s =
     (if \<not> haveHmo s then (False, s)
      else
        let (call_status, lp1, h1) = interface_edit env op (options' s) (lp' s) (hmos' s ! 0);
            s1 = (hmo_update 0 (\<lambda>h. h1) s)\<lparr>lp' := lp1\<rparr>;
            return_status = interpretCallStatus call_status OK
        in if return_status = Error then (False, s1)
           else if update then
             let (ok, s2) = updateHighsSolutionBasis s1
             in if \<not> ok then (False, s2) else (return_status \<noteq> Error, s2)
           else (return_status \<noteq> Error, s1))"

text \<open>
  \<open>edit_updates\<close> tells which operations call \<open>updateHighsSolutionBasis\<close>: those that
  add or delete rows or columns. \<open>edit\<close> is the body above for one operation; the
  operations of the source follow, each with the member function of the interface it calls.
\<close>

fun edit_updates :: "edit_op \<Rightarrow> bool" where
  "edit_updates (AddRows n lo up nz st ix vs) = True"
| "edit_updates (AddCols n c lo up nz st ix vs) = True"
| "edit_updates (DeleteColsInterval a b) = True"
| "edit_updates (DeleteColsSet n xs) = True"
| "edit_updates (DeleteColsMask m) = True"
| "edit_updates (DeleteRowsInterval a b) = True"
| "edit_updates (DeleteRowsSet n xs) = True"
| "edit_updates (DeleteRowsMask m) = True"
| "edit_updates op = False"

definition edit :: "env \<Rightarrow> edit_op \<Rightarrow> Highs \<Rightarrow> bool \<times> Highs" where
  "edit env op = structural_edit env (edit_updates op) op"

definition addRows ::
  "env \<Rightarrow> int \<Rightarrow> real list \<Rightarrow> real list \<Rightarrow> int \<Rightarrow> int list \<Rightarrow> int list \<Rightarrow> real list \<Rightarrow>
   Highs \<Rightarrow> bool \<times> Highs" where
  "addRows env num_new_row lower_bounds upper_bounds num_new_nz starts indices values =
     edit env
       (AddRows num_new_row lower_bounds upper_bounds num_new_nz starts indices values)"

definition addRow ::
  "env \<Rightarrow> real \<Rightarrow> real \<Rightarrow> int \<Rightarrow> int list \<Rightarrow> real list \<Rightarrow> Highs \<Rightarrow> bool \<times> Highs" where
  "addRow env lower_bound upper_bound num_new_nz indices values =
     addRows env 1 [lower_bound] [upper_bound] num_new_nz [0] indices values"

definition addCols ::
  "env \<Rightarrow> int \<Rightarrow> real list \<Rightarrow> real list \<Rightarrow> real list \<Rightarrow> int \<Rightarrow> int list \<Rightarrow> int list \<Rightarrow>
   real list \<Rightarrow> Highs \<Rightarrow> bool \<times> Highs" where
  "addCols env num_new_col costs lower_bounds upper_bounds num_new_nz starts indices values =
     edit env
       (AddCols num_new_col costs lower_bounds upper_bounds num_new_nz starts indices values)"

definition addCol ::
  "env \<Rightarrow> real \<Rightarrow> real \<Rightarrow> real \<Rightarrow> int \<Rightarrow> int list \<Rightarrow> real list \<Rightarrow> Highs \<Rightarrow> bool \<times> Highs" where
  "addCol env cost lower_bound upper_bound num_new_nz indices values =
     addCols env 1 [cost] [lower_bound] [upper_bound] num_new_nz [0] indices values"

definition changeObjectiveSense :: "env \<Rightarrow> ObjSense \<Rightarrow> Highs \<Rightarrow> bool \<times> Highs" where
  "changeObjectiveSense env sense = edit env
       (ChangeObjectiveSense sense)"

definition changeColsCost_set ::
  "env \<Rightarrow> int \<Rightarrow> int list \<Rightarrow> real list \<Rightarrow> Highs \<Rightarrow> bool \<times> Highs" where
  "changeColsCost_set env num_set_entries set_entries cost =
     edit env
       (ChangeCostsSet num_set_entries set_entries cost)"

definition changeColCost :: "env \<Rightarrow> int \<Rightarrow> real \<Rightarrow> Highs \<Rightarrow> bool \<times> Highs" where
  "changeColCost env col cost = changeColsCost_set env 1 [col] [cost]"

definition changeColsCost_mask :: "env \<Rightarrow> int list \<Rightarrow> real list \<Rightarrow> Highs \<Rightarrow> bool \<times> Highs" where
  "changeColsCost_mask env mask_entries cost = edit env
       (ChangeCostsMask mask_entries cost)"

definition changeColsBounds_set ::
  "env \<Rightarrow> int \<Rightarrow> int list \<Rightarrow> real list \<Rightarrow> real list \<Rightarrow> Highs \<Rightarrow> bool \<times> Highs" where
  "changeColsBounds_set env num_set_entries set_entries lower upper =
     edit env
       (ChangeColBoundsSet num_set_entries set_entries lower upper)"

definition changeColBounds :: "env \<Rightarrow> int \<Rightarrow> real \<Rightarrow> real \<Rightarrow> Highs \<Rightarrow> bool \<times> Highs" where
  "changeColBounds env col lower upper = changeColsBounds_set env 1 [col] [lower] [upper]"

definition changeColsBounds_interval ::
  "env \<Rightarrow> int \<Rightarrow> int \<Rightarrow> real list \<Rightarrow> real list \<Rightarrow> Highs \<Rightarrow> bool \<times> Highs" where
  "changeColsBounds_interval env from_col to_col lower upper =
     edit env
       (ChangeColBoundsInterval from_col to_col lower upper)"

definition changeColsBounds_mask ::
  "env \<Rightarrow> int list \<Rightarrow> real list \<Rightarrow> real list \<Rightarrow> Highs \<Rightarrow> bool \<times> Highs" where
  "changeColsBounds_mask env mask_entries lower upper =
     edit env
       (ChangeColBoundsMask mask_entries lower upper)"

definition changeRowsBounds_set ::
  "env \<Rightarrow> int \<Rightarrow> int list \<Rightarrow> real list \<Rightarrow> real list \<Rightarrow> Highs \<Rightarrow> bool \<times> Highs" where
  "changeRowsBounds_set env num_set_entries set_entries lower upper =
     edit env
       (ChangeRowBoundsSet num_set_entries set_entries lower upper)"

definition changeRowBounds :: "env \<Rightarrow> int \<Rightarrow> real \<Rightarrow> real \<Rightarrow> Highs \<Rightarrow> bool \<times> Highs" where
  "changeRowBounds env row lower upper = changeRowsBounds_set env 1 [row] [lower] [upper]"

definition changeRowsBounds_mask ::
  "env \<Rightarrow> int list \<Rightarrow> real list \<Rightarrow> real list \<Rightarrow> Highs \<Rightarrow> bool \<times> Highs" where
  "changeRowsBounds_mask env mask_entries lower upper =
     edit env
       (ChangeRowBoundsMask mask_entries lower upper)"

definition changeCoeff :: "env \<Rightarrow> int \<Rightarrow> int \<Rightarrow> real \<Rightarrow> Highs \<Rightarrow> bool \<times> Highs" where
  "changeCoeff env row col val = edit env
       (ChangeCoefficient row col val)"

definition deleteCols_interval :: "env \<Rightarrow> int \<Rightarrow> int \<Rightarrow> Highs \<Rightarrow> bool \<times> Highs" where
  "deleteCols_interval env from_col to_col =
     edit env
       (DeleteColsInterval from_col to_col)"

definition deleteCols_set :: "env \<Rightarrow> int \<Rightarrow> int list \<Rightarrow> Highs \<Rightarrow> bool \<times> Highs" where
  "deleteCols_set env num_set_entries set_entries =
     edit env
       (DeleteColsSet num_set_entries set_entries)"

definition deleteCols_mask :: "env \<Rightarrow> int list \<Rightarrow> Highs \<Rightarrow> bool \<times> Highs" where
  "deleteCols_mask env mask_entries = edit env
       (DeleteColsMask mask_entries)"

definition deleteRows_interval :: "env \<Rightarrow> int \<Rightarrow> int \<Rightarrow> Highs \<Rightarrow> bool \<times> Highs" where
  "deleteRows_interval env from_row to_row =
     edit env
       (DeleteRowsInterval from_row to_row)"

definition deleteRows_set :: "env \<Rightarrow> int \<Rightarrow> int list \<Rightarrow> Highs \<Rightarrow> bool \<times> Highs" where
  "deleteRows_set env num_set_entries set_entries =
     edit env
       (DeleteRowsSet num_set_entries set_entries)"

definition deleteRows_mask :: "env \<Rightarrow> int list \<Rightarrow> Highs \<Rightarrow> bool \<times> Highs" where
  "deleteRows_mask env mask_entries = edit env
       (DeleteRowsMask mask_entries)"

subsection \<open>Writing the solution (lines 1654-1673 and 1717-1736)\<close>

text \<open>
  What a function writes is a list of pairs of a target and a text. \<open>strrchr_dot\<close> is
  \<open>strrchr(filename.c_str(), '.')\<close>: the part of the name from its last dot on.
\<close>

datatype output_target = ToStdout | ToFile string

definition strrchr_dot :: "string \<Rightarrow> string option" where
  "strrchr_dot filename =
     (if CHR ''.'' \<in> set filename
      then Some (CHR ''.'' # rev (takeWhile (\<lambda>c. c \<noteq> CHR ''.'') (rev filename)))
      else None)"

definition openWriteFile ::
  "env \<Rightarrow> string \<Rightarrow> string \<Rightarrow> HighsStatus \<times> output_target option \<times> bool" where
  "openWriteFile env filename method_name =
     (if filename = [] then (OK, Some ToStdout, False)
      else if \<not> fopen_w env filename then (Error, None, False)
      else (OK, Some (ToFile filename),
            (case strrchr_dot filename of
               None \<Rightarrow> False
             | Some dot \<Rightarrow> if dot \<noteq> filename then tl dot = ''html'' else False)))"

text \<open>\<open>writeSolution\<close> is a \<open>const\<close> member: it returns its status, the object, and
  what it wrote.\<close>

definition writeSolution ::
  "env \<Rightarrow> string \<Rightarrow> bool \<Rightarrow> Highs \<Rightarrow> HighsStatus \<times> Highs \<times> (output_target \<times> string) list" where
  "writeSolution env filename pretty s =
     (let (call_status, file, html) = openWriteFile env filename ''writeSolution'';
          return_status = interpretCallStatus call_status OK
      in if return_status = Error then (return_status, s, [])
         else (Warning, s, [(ToStdout, ''warning: Feature under development'')]))"

section \<open>The vocabulary of the claims\<close>

text \<open>
  The events that a call adds to the record of stage calls, the predicates on them, and
  the shapes of the object that the claims speak of.
\<close>

text \<open>The stage calls that a member function has added to the record.\<close>

definition new_calls :: "Highs \<Rightarrow> Highs \<Rightarrow> stage_call list" where
  "new_calls s s1 = drop (length (calls' s)) (calls' s1)"

text \<open>The options that a solve is called with: the solve of the presolved LP, which is
  the only solve on a context other than context 0, sees the upper bound on the dual
  objective value at infinity, and the hot start after postsolve sees one thread.\<close>

fun options_at_solve_ok :: "env \<Rightarrow> stage_call \<Rightarrow> bool" where
  "options_at_solve_ok env (SolveLpCalled i m opts) =
     ((m = ''Solving the presolved LP'' \<longrightarrow>
         dual_objective_value_upper_bound opts = HIGHS_CONST_INF env) \<and>
      (m = ''Solving the original LP from the solution after postsolve'' \<longrightarrow>
         highs_min_threads opts = 1 \<and> highs_max_threads opts = 1) \<and>
      (i \<noteq> 0 \<longrightarrow> m = ''Solving the presolved LP''))"
| "options_at_solve_ok env c = True"

text \<open>A stage call made after presolve has returned: a solve or a postsolve event.\<close>

definition stage_ok :: "env \<Rightarrow> stage_call \<Rightarrow> bool" where
  "stage_ok env c = ((is_SolveLpCalled c \<or> is_Postsolve c) \<and> options_at_solve_ok env c)"

text \<open>The three options that \<open>run\<close> overrides have the same values in two states.\<close>

definition same_options :: "Highs \<Rightarrow> Highs \<Rightarrow> bool" where
  "same_options s s1 =
     (dual_objective_value_upper_bound (options' s1) = dual_objective_value_upper_bound (options' s) \<and>
      highs_min_threads (options' s1) = highs_min_threads (options' s) \<and>
      highs_max_threads (options' s1) = highs_max_threads (options' s))"

text \<open>What a part of \<open>run\<close> after presolve does to the record and to the options: it
  only appends solves and postsolve events, each with the options as above, and leaves the
  three options as they were.\<close>

definition frame :: "env \<Rightarrow> Highs \<Rightarrow> Highs \<Rightarrow> bool" where
  "frame env s s1 =
     (take (length (calls' s)) (calls' s1) = calls' s \<and>
      list_all (stage_ok env) (new_calls s s1) \<and> same_options s s1)"

text \<open>The object that a part of \<open>run\<close> leaves, whether it returns or goes on.\<close>

definition result_state :: "(HighsStatus \<times> Highs) + (nat \<times> HighsStatus \<times> Highs) \<Rightarrow> Highs" where
  "result_state x = (case x of Inl r \<Rightarrow> snd r | Inr (a, b, c) \<Rightarrow> c)"

text \<open>The object when presolve has returned and its status is recorded.\<close>

definition after_presolve :: "env \<Rightarrow> Highs \<Rightarrow> Highs" where
  "after_presolve env s =
     record_call (PresolveReturned (fst (runPresolve env (prepare_presolve env s))))
       (snd (runPresolve env (prepare_presolve env s)))"

text \<open>A stage call inside a run: anything but another entry of \<open>run\<close>.\<close>

definition event_ok :: "env \<Rightarrow> stage_call \<Rightarrow> bool" where
  "event_ok env c = (\<not> is_RunCalled c \<and> options_at_solve_ok env c)"

text \<open>As \<open>frame\<close>, for a part that also runs presolve.\<close>

definition extends :: "env \<Rightarrow> Highs \<Rightarrow> Highs \<Rightarrow> bool" where
  "extends env s s1 =
     (take (length (calls' s)) (calls' s1) = calls' s \<and>
      list_all (event_ok env) (new_calls s s1) \<and> same_options s s1)"

text \<open>The options once \<open>run\<close> has applied \<open>setHsolOptions\<close>.\<close>

definition entry_options :: "env \<Rightarrow> Highs \<Rightarrow> HighsOptions" where
  "entry_options env s =
     (if run_as_hsol (options' s) then setHsolOptions env (options' s) else options' s)"

text \<open>The pool holds one context when \<open>run\<close> returns, and one or two while it goes on.\<close>

definition pool_ok :: "(HighsStatus \<times> Highs) + (nat \<times> HighsStatus \<times> Highs) \<Rightarrow> bool" where
  "pool_ok x = (case x of Inl (st, s1) \<Rightarrow> length (hmos' s1) = 1
                | Inr (i, r, s1) \<Rightarrow> length (hmos' s1) = 1 \<or> length (hmos' s1) = 2)"

text \<open>The shapes of a cleared solution and of a cleared basis.\<close>

definition solution_empty :: "HighsSolution \<Rightarrow> bool" where
  "solution_empty sol =
     (col_value sol = [] \<and> col_dual sol = [] \<and> row_value sol = [] \<and> row_dual sol = [])"

definition basis_cleared :: "HighsBasis \<Rightarrow> bool" where
  "basis_cleared b = (\<not> valid' b \<and> col_status b = [] \<and> row_status b = [])"

text \<open>The statuses of the error class.\<close>

fun is_error_status :: "HighsModelStatus \<Rightarrow> bool" where
  "is_error_status LOAD_ERROR = True"
| "is_error_status MODEL_ERROR = True"
| "is_error_status PRESOLVE_ERROR = True"
| "is_error_status SOLVE_ERROR = True"
| "is_error_status POSTSOLVE_ERROR = True"
| "is_error_status st = False"

text \<open>Solution, basis and info are cleared.\<close>

definition all_cleared :: "env \<Rightarrow> Highs \<Rightarrow> bool" where
  "all_cleared env s =
     (solution_empty (solution' s) \<and> basis_cleared (basis' s) \<and> info' s = cleared_info env)"

text \<open>The outcome of a run whose context 0 carries an error status: the return status is
  Error and everything is cleared.\<close>

definition good :: "env \<Rightarrow> HighsStatus \<times> Highs \<Rightarrow> bool" where
  "good env x =
     (hmos' (snd x) \<noteq> [] \<and> is_error_status (hmo_scaled_model_status' (hmos' (snd x) ! 0)) \<longrightarrow>
      fst x = Error \<and> all_cleared env (snd x))"

text \<open>The invariants that carry \<open>good\<close> through the parts of \<open>run\<close>: the scaled status of
  the object is still not set, and an error status on context 0 is matched by the status of
  the context that was solved.\<close>

definition pre :: "Highs \<Rightarrow> bool" where
  "pre s = (hmos' s \<noteq> [] \<and> scaled_model_status' s = NOTSET)"

definition rel :: "Highs \<Rightarrow> nat \<Rightarrow> bool" where
  "rel s i =
     (is_error_status (hmo_scaled_model_status' (hmos' s ! 0)) \<longrightarrow>
      is_error_status (hmo_scaled_model_status' (hmos' s ! i)) \<or>
      hmo_scaled_model_status' (hmos' s ! i) = NOTSET)"

definition seg_good ::
  "env \<Rightarrow> (nat \<Rightarrow> Highs \<Rightarrow> bool) \<Rightarrow> (HighsStatus \<times> Highs) + (nat \<times> HighsStatus \<times> Highs) \<Rightarrow> bool" where
  "seg_good env Q x = (case x of Inl y \<Rightarrow> good env y | Inr (i, r, s1) \<Rightarrow> Q i s1)"

text \<open>The object when \<open>run\<close> has reset the statuses, and when it has recorded its entry.\<close>

definition reset_status :: "Highs \<Rightarrow> Highs" where
  "reset_status s =
     (hmo_update 0 (\<lambda>h. h\<lparr>hmo_unscaled_model_status' := NOTSET\<rparr>)
        (hmo_update 0 (\<lambda>h. h\<lparr>hmo_scaled_model_status' := NOTSET\<rparr>) s))
     \<lparr>model_status' := NOTSET, scaled_model_status' := NOTSET\<rparr>"

definition entry_state :: "env \<Rightarrow> Highs \<Rightarrow> Highs" where
  "entry_state env s =
     (record_call (RunCalled (valid' (basis' s)) (presolve (options' s))) s)
     \<lparr>options' := entry_options env s\<rparr>"

subsection \<open>Examples\<close>

text \<open>A maximisation LP with two columns and one row, and the LP that presolve reduces it
  to.\<close>

definition example_lp :: HighsLp where
  "example_lp =
     \<lparr>numCol' = 2, numRow' = 1, Astart' = [0, 1, 2], Aindex' = [0, 0], Avalue' = [1, 1],
      colCost' = [1, 1], colLower' = [0, 0], colUpper' = [10, 10], rowLower' = [0],
      rowUpper' = [10], sense' = MAXIMIZE, model_name' = ''example'', lp_name' = []\<rparr>"

definition example_reduced_lp :: HighsLp where
  "example_reduced_lp =
     \<lparr>numCol' = 1, numRow' = 0, Astart' = [0, 0], Aindex' = [], Avalue' = [],
      colCost' = [-1], colLower' = [0], colUpper' = [10], rowLower' = [],
      rowUpper' = [], sense' = MINIMIZE, model_name' = ''example'', lp_name' = []\<rparr>"

definition example_options :: HighsOptions where
  "example_options =
     \<lparr>model_file = [], presolve = ''choose'', solver = ''simplex'', run_crossover = True,
      run_as_hsol = False, time_limit = 5, dual_objective_value_upper_bound = 100,
      simplex_strategy = 1, highs_min_threads = 2, highs_max_threads = 8, message_level = 0\<rparr>"

definition example_info :: HighsInfo where
  "example_info =
     \<lparr>simplex_iteration_count = 0, ipm_iteration_count = 0, crossover_iteration_count = 0,
      primal_status = STATUS_NOTSET, dual_status = STATUS_NOTSET, objective_function_value = 0,
      num_primal_infeasibilities = 0, max_primal_infeasibility = 0,
      sum_primal_infeasibilities = 0, num_dual_infeasibilities = 0, max_dual_infeasibility = 0,
      sum_dual_infeasibilities = 0\<rparr>"

definition example_solution_params :: HighsSolutionParams where
  "example_solution_params =
     \<lparr>sp_primal_status = STATUS_FEASIBLE_POINT, sp_dual_status = STATUS_FEASIBLE_POINT,
      sp_objective_function_value = 10, sp_num_primal_infeasibilities = 0,
      sp_max_primal_infeasibility = 0, sp_sum_primal_infeasibilities = 0,
      sp_num_dual_infeasibilities = 0, sp_max_dual_infeasibility = 0,
      sp_sum_dual_infeasibilities = 0\<rparr>"

definition example_hmo :: HighsModelObject where
  "example_hmo =
     \<lparr>hmo_lp' = OriginalLp,
      hmo_basis' = \<lparr>valid' = False, col_status = [], row_status = []\<rparr>,
      hmo_solution' = \<lparr>col_value = [], col_dual = [], row_value = [], row_dual = []\<rparr>,
      hmo_unscaled_model_status' = NOTSET, hmo_scaled_model_status' = NOTSET,
      hmo_unscaled_solution_params' = example_solution_params,
      hmo_iteration_counts' = \<lparr>simplex = 0, ipm = 0, crossover = 0\<rparr>\<rparr>"

definition example_presolve :: PresolveComponent where
  "example_presolve =
     \<lparr>has_run' = False, presolve_status' = NotPresolved, presolve_time_limit = 0,
      n_cols_removed = 0, n_rows_removed = 0, n_nnz_removed = 0,
      reduced_lp' = example_reduced_lp,
      reduced_solution' = \<lparr>col_value = [], col_dual = [], row_value = [], row_dual = []\<rparr>,
      recovered_solution' = \<lparr>col_value = [], col_dual = [], row_value = [], row_dual = []\<rparr>,
      presolve_col_status = [], presolve_row_status = []\<rparr>"

text \<open>A solver that finds every LP optimal, with a solution and a basis of its size.\<close>

definition example_solveLp ::
  "stage_call list \<Rightarrow> HighsOptions \<Rightarrow> HighsLp \<Rightarrow> string \<Rightarrow> HighsModelObject \<Rightarrow>
   HighsStatus \<times> HighsModelObject" where
  "example_solveLp cs opts lp message h =
     (OK, h\<lparr>hmo_basis' := \<lparr>valid' = True, col_status = replicate (numCol' lp) BASIC,
                              row_status = replicate (numRow' lp) LOWER\<rparr>,
              hmo_solution' := \<lparr>col_value = replicate (numCol' lp) 5,
                                 col_dual = replicate (numCol' lp) 3,
                                 row_value = replicate (numRow' lp) 10,
                                 row_dual = replicate (numRow' lp) 1\<rparr>,
              hmo_unscaled_model_status' := OPTIMAL, hmo_scaled_model_status' := OPTIMAL\<rparr>)"

text \<open>An edit interface that performs \<open>AddRows\<close> and \<open>DeleteRowsInterval\<close> on the
  row count, invalidates the basis, and fails on every other edit.\<close>

fun example_interface_edit ::
  "edit_op \<Rightarrow> HighsOptions \<Rightarrow> HighsLp \<Rightarrow> HighsModelObject \<Rightarrow>
   HighsStatus \<times> HighsLp \<times> HighsModelObject" where
  "example_interface_edit (AddRows n lo up nz st ix vs) opts lp h =
     (OK, lp\<lparr>numRow' := numRow' lp + nat n, rowLower' := rowLower' lp @ lo,
              rowUpper' := rowUpper' lp @ up\<rparr>,
      h\<lparr>hmo_basis' := (hmo_basis' h)\<lparr>valid' := False\<rparr>\<rparr>)"
| "example_interface_edit op opts lp h = (Error, lp, h)"

text \<open>The collaborators of the examples: presolve answers \<open>ps\<close>, postsolve answers
  \<open>pst\<close>, and the clock reads \<open>clock\<close>.\<close>

definition example_env :: "HighsPresolveStatus \<Rightarrow> HighsPostsolveStatus \<Rightarrow> real \<Rightarrow> env" where
  "example_env ps pst clock =
     \<lparr>off_string = ''off'', on_string = ''on'', ipm_string = ''ipm'',
      simplex_string = ''simplex'', FILENAME_DEFAULT = [], HIGHS_CONST_INF = 1000000,
      SIMPLEX_STRATEGY_CHOOSE = 0,
      new_HighsModelObject = example_hmo, cleared_info = example_info,
      setHsolOptions = (\<lambda>opts. opts),
      getFilereader = (\<lambda>f. False),
      readModelFromFile = (\<lambda>opts f. (FILENOTFOUND, example_lp)),
      extractModelName = (\<lambda>f. f),
      assessLp = (\<lambda>lp opts. (OK, lp)),
      cleanBounds = (\<lambda>opts lp. (OK, lp)),
      readRunHighsClock = (\<lambda>cs n. clock),
      presolve_clear = (\<lambda>p. p\<lparr>has_run' := False\<rparr>),
      presolve_init = (\<lambda>lp p. p),
      presolve_run = (\<lambda>p. (ps, p\<lparr>has_run' := True, presolve_status' := ps\<rparr>)),
      postsolve = (\<lambda>p sol. (pst, \<lparr>col_value = [5, 5], col_dual = [0, 0], row_value = [10],
                                   row_dual = [1]\<rparr>, [BASIC, LOWER], [UPPER])),
      solveLp = example_solveLp,
      resetModelStatusAndSolutionParams =
        (\<lambda>h. h\<lparr>hmo_unscaled_model_status' := NOTSET, hmo_scaled_model_status' := NOTSET\<rparr>),
      interface_edit = example_interface_edit,
      fopen_w = (\<lambda>f. f \<noteq> ''/''),
      \<dots> = ()\<rparr>"

text \<open>An object with the example LP loaded, a solution left by an earlier run and no
  valid basis.\<close>

definition example_highs :: Highs where
  "example_highs =
     \<lparr>hmos' = [example_hmo], lp' = example_lp, options' = example_options,
      presolve' = example_presolve,
      solution' = \<lparr>col_value = [5, 5], col_dual = [0, 0], row_value = [10], row_dual = [1]\<rparr>,
      basis' = \<lparr>valid' = False, col_status = [BASIC, LOWER], row_status = [UPPER]\<rparr>,
      info' = example_info\<lparr>objective_function_value := 10\<rparr>,
      model_status' = NOTSET, scaled_model_status' = NOTSET, calls' = []\<rparr>"

text \<open>The state that \<open>getUseModelStatus\<close> passes to its one re-run: the basis is
  marked invalid and the presolve option is set to on.\<close>

definition rerun_state :: "env \<Rightarrow> Highs \<Rightarrow> Highs" where
  "rerun_state env s =
     s\<lparr>basis' := (basis' s)\<lparr>valid' := False\<rparr>, options' := (options' s)\<lparr>presolve := on_string env\<rparr>\<rparr>"

text \<open>An LP with no columns and no rows.\<close>

definition example_empty_lp :: HighsLp where
  "example_empty_lp =
     \<lparr>numCol' = 0, numRow' = 0, Astart' = [0], Aindex' = [], Avalue' = [],
      colCost' = [], colLower' = [], colUpper' = [], rowLower' = [],
      rowUpper' = [], sense' = MINIMIZE, model_name' = ''empty'', lp_name' = []\<rparr>"

text \<open>The example object after presolve has reduced the LP and the reduced LP has been
  solved: the presolve component holds the solution of the reduced LP.\<close>

definition example_postsolve_state :: Highs where
  "example_postsolve_state =
     example_highs\<lparr>presolve' := example_presolve
       \<lparr>presolve_status' := Reduced,
        reduced_solution' := \<lparr>col_value = [5], col_dual = [3], row_value = [], row_dual = []\<rparr>\<rparr>\<rparr>"

section \<open>Lemmas\<close>

subsection \<open>Projections of the state\<close>

lemmas small_defs = clearModelStatus_def clearSolution_def clearBasis_def clearInfo_def
  clearSolver_def record_call_def hmo_update_def set_lp_name_def

lemma hmos_finalise_for_status [simp]:
  "hmos' (finalise_for_status env st s) = hmos' s"
  by (cases st) (simp_all add: small_defs)

lemma hmos_beforeReturnFromRun:
  "hmos' (beforeReturnFromRun env s) = (if 1 < length (hmos' s) then butlast (hmos' s) else hmos' s)"
  by (simp add: beforeReturnFromRun_def Let_def small_defs)

lemma length_hmos_beforeReturnFromRun:
  "length (hmos' (beforeReturnFromRun env s)) = (if 1 < length (hmos' s) then length (hmos' s) - 1 else length (hmos' s))"
  by (simp add: hmos_beforeReturnFromRun)

lemma length_hmos_runLpSolver [simp]:
  "length (hmos' (snd (runLpSolver env i m s))) = length (hmos' s)"
  by (simp add: runLpSolver_def Let_def small_defs split: prod.splits)

lemma hmos_runPresolve_init:
  "runPresolve_init env s = Inr s1 \<Longrightarrow> hmos' s1 = hmos' s"
  "runPresolve_init env s = Inl (st, s2) \<Longrightarrow> hmos' s2 = hmos' s"
  by (auto simp add: runPresolve_init_def Let_def split: if_splits)

lemma hmos_runPresolve [simp]:
  "hmos' (snd (runPresolve env s)) = hmos' s"
  by (auto simp add: runPresolve_def Let_def hmos_runPresolve_init split: prod.splits sum.splits)

lemma hmos_runPostsolve [simp]:
  "hmos' (snd (runPostsolve env s)) = hmos' s"
  by (simp add: runPostsolve_def Let_def small_defs split: prod.splits)

lemma hmos_set_lp_name [simp]: "hmos' (set_lp_name i n s) = hmos' s"
  by (simp add: set_lp_name_def split: lp_ref.splits)

lemma length_hmos_run_finish:
  "length (hmos' (snd (run_finish env i r s))) = (if 1 < length (hmos' s) then length (hmos' s) - 1 else length (hmos' s))"
  by (simp add: run_finish_def Let_def getHighsModelStatusAndInfo_def length_hmos_beforeReturnFromRun split: prod.splits)

subsection \<open>What a part of the pipeline adds to the record and leaves of the options\<close>

text \<open>A part of \<open>run\<close> only appends to the record of stage calls, calls the solver with the
  options overridden as the claims say, and returns with the three options it was given.\<close>

lemma frameI:
  "calls' s1 = calls' s @ evs \<Longrightarrow> list_all (stage_ok env) evs \<Longrightarrow> same_options s s1 \<Longrightarrow> frame env s s1"
  by (simp add: frame_def new_calls_def)

lemma frameD:
  "frame env s s1 \<Longrightarrow> calls' s1 = calls' s @ new_calls s s1 \<and> list_all (stage_ok env) (new_calls s s1) \<and> same_options s s1"
  unfolding frame_def new_calls_def
  by (metis append_take_drop_id)

lemma frame_refl [simp]: "frame env s s"
  by (simp add: frame_def new_calls_def same_options_def)

lemma frame_same: "calls' s1 = calls' s \<Longrightarrow> options' s1 = options' s \<Longrightarrow> frame env s s1"
  by (simp add: frame_def new_calls_def same_options_def)

lemma frame_trans: "frame env s s1 \<Longrightarrow> frame env s1 s2 \<Longrightarrow> frame env s s2"
proof -
  assume a: "frame env s s1" and b: "frame env s1 s2"
  from frameD[OF a] frameD[OF b]
  have "calls' s2 = calls' s @ (new_calls s s1 @ new_calls s1 s2)"
    and "list_all (stage_ok env) (new_calls s s1 @ new_calls s1 s2)"
    and "same_options s s2"
    by (simp_all add: same_options_def)
  then show ?thesis by (rule frameI)
qed

lemma frame_cong_left: "calls' t = calls' s \<Longrightarrow> options' t = options' s \<Longrightarrow> frame env t u \<Longrightarrow> frame env s u"
  by (simp add: frame_def new_calls_def same_options_def)

lemma frame_cong_right: "frame env s t \<Longrightarrow> calls' u = calls' t \<Longrightarrow> options' u = options' t \<Longrightarrow> frame env s u"
  by (simp add: frame_def new_calls_def same_options_def)

lemma calls_finalise_for_status [simp]: "calls' (finalise_for_status env st s) = calls' s"
  by (cases st) (simp_all add: small_defs)

lemma options_finalise_for_status [simp]: "options' (finalise_for_status env st s) = options' s"
  by (cases st) (simp_all add: small_defs)

lemma calls_beforeReturnFromRun [simp]: "calls' (beforeReturnFromRun env s) = calls' s"
  by (simp add: beforeReturnFromRun_def Let_def small_defs)

lemma options_beforeReturnFromRun [simp]: "options' (beforeReturnFromRun env s) = options' s"
  by (simp add: beforeReturnFromRun_def Let_def small_defs)

lemma calls_runLpSolver:
  "calls' (snd (runLpSolver env i m s)) =
     (if i < length (hmos' s) then calls' s @ [SolveLpCalled i m (options' s)] else calls' s)"
  by (simp add: runLpSolver_def Let_def small_defs split: prod.splits)

lemma options_runLpSolver [simp]: "options' (snd (runLpSolver env i m s)) = options' s"
  by (simp add: runLpSolver_def Let_def small_defs split: prod.splits)

lemma runPresolve_init_frame:
  "runPresolve_init env s = Inr s1 \<Longrightarrow> calls' s1 = calls' s \<and> options' s1 = options' s"
  "runPresolve_init env s = Inl (st, s2) \<Longrightarrow> calls' s2 = calls' s \<and> options' s2 = options' s"
  by (auto simp add: runPresolve_init_def Let_def split: if_splits)

lemma calls_runPresolve [simp]: "calls' (snd (runPresolve env s)) = calls' s"
  by (auto simp add: runPresolve_def Let_def runPresolve_init_frame split: prod.splits sum.splits)

lemma options_runPresolve [simp]: "options' (snd (runPresolve env s)) = options' s"
  by (auto simp add: runPresolve_def Let_def runPresolve_init_frame split: prod.splits sum.splits)

lemma calls_set_lp_name [simp]: "calls' (set_lp_name i n s) = calls' s"
  by (simp add: set_lp_name_def split: lp_ref.splits)

lemma options_set_lp_name [simp]: "options' (set_lp_name i n s) = options' s"
  by (simp add: set_lp_name_def split: lp_ref.splits)

lemma calls_hmo_update [simp]: "calls' (hmo_update i f s) = calls' s"
  by (simp add: hmo_update_def)

lemma options_hmo_update [simp]: "options' (hmo_update i f s) = options' s"
  by (simp add: hmo_update_def)

lemma hmos_record_call [simp]: "hmos' (record_call c s) = hmos' s"
  by (simp add: record_call_def)

lemma calls_record_call [simp]: "calls' (record_call c s) = calls' s @ [c]"
  by (simp add: record_call_def)

lemma options_record_call [simp]: "options' (record_call c s) = options' s"
  by (simp add: record_call_def)

lemma length_hmos_hmo_update [simp]: "length (hmos' (hmo_update i f s)) = length (hmos' s)"
  by (simp add: hmo_update_def)

lemma calls_runPostsolve:
  "calls' (snd (runPostsolve env s)) = calls' s \<or>
   (\<exists>sol. calls' (snd (runPostsolve env s)) = calls' s @ [PostsolveCalled sol])"
  by (simp add: runPostsolve_def Let_def small_defs split_beta)

lemma options_runPostsolve [simp]: "options' (snd (runPostsolve env s)) = options' s"
  by (simp add: runPostsolve_def Let_def small_defs split_beta)

lemma frame_runPostsolve: "frame env s (snd (runPostsolve env s))"
proof -
  have so: "same_options s (snd (runPostsolve env s))" by (simp add: same_options_def)
  from calls_runPostsolve[of env s] show ?thesis
  proof
    assume "calls' (snd (runPostsolve env s)) = calls' s"
    then show ?thesis by (intro frameI[where evs="[]"] so) simp_all
  next
    assume "\<exists>sol. calls' (snd (runPostsolve env s)) = calls' s @ [PostsolveCalled sol]"
    then obtain sol where "calls' (snd (runPostsolve env s)) = calls' s @ [PostsolveCalled sol]" ..
    then show ?thesis by (intro frameI[where evs="[PostsolveCalled sol]"] so) (simp_all add: stage_ok_def)
  qed
qed

lemma frame_record_postsolve: "frame env s (record_call (PostsolveReturned p) s)"
  by (rule frameI[where evs="[PostsolveReturned p]"]) (simp_all add: stage_ok_def same_options_def)

lemma frame_run_finish: "frame env s (snd (run_finish env i r s))"
  by (rule frame_same) (simp_all add: run_finish_def Let_def getHighsModelStatusAndInfo_def split_beta)

lemma frame_run_presolve_status: "frame env s (snd (run_presolve_status env st r s))"
  by (rule frame_same) (simp_all add: run_presolve_status_def Let_def)

lemma frame_run_postsolve_failed: "frame env s (snd (run_postsolve_failed env s))"
  by (rule frame_same) (simp_all add: run_postsolve_failed_def Let_def)

lemma result_state_simps [simp]:
  "result_state (Inl r) = snd r" "result_state (Inr (a, b, c)) = c"
  by (simp_all add: result_state_def)

lemma result_state_if: "result_state (if b then x else y) = (if b then result_state x else result_state y)"
  by simp

lemma frame_run_solve_original:
  "m \<noteq> ''Solving the presolved LP'' \<Longrightarrow>
   m \<noteq> ''Solving the original LP from the solution after postsolve'' \<Longrightarrow>
   frame env s (result_state (run_solve_original env n m 0 r s))"
  by (rule frameI[where evs="if 0 < length (hmos' s) then [SolveLpCalled 0 m (options' s)] else []"])
     (simp_all add: run_solve_original_def Let_def split_beta calls_runLpSolver stage_ok_def same_options_def)

lemma frame_run_solve_reduced:
  "frame env s (result_state (run_solve_reduced env ph r s))"
  by (rule frameI[where evs="new_calls s (result_state (run_solve_reduced env ph r s))"])
     (simp_all add: new_calls_def run_solve_reduced_def Let_def split_beta calls_runLpSolver stage_ok_def same_options_def)

lemma frame_run_presolve_switch:
  "frame env s (result_state (run_presolve_switch env ps ph r s))"
  by (cases ps) (simp_all add: frame_run_solve_original frame_run_solve_reduced frame_run_presolve_status Let_def frame_same)

lemma frame_run_hot_start:
  "frame env s (result_state (run_hot_start env r s))"
  by (rule frameI[where evs="new_calls s (result_state (run_hot_start env r s))"])
     (simp_all add: new_calls_def run_hot_start_def Let_def split_beta calls_runLpSolver stage_ok_def same_options_def)

lemma calls_prepare_postsolve [simp]: "calls' (prepare_postsolve ps i s) = calls' s"
  by (simp add: prepare_postsolve_def Let_def)

lemma options_prepare_postsolve [simp]: "options' (prepare_postsolve ps i s) = options' s"
  by (simp add: prepare_postsolve_def Let_def)

lemma frame_run_postsolve:
  "frame env s (result_state (run_postsolve env ps i r s))"
proof -
  let ?t = "prepare_postsolve ps i s"
  let ?u = "snd (runPostsolve env ?t)"
  let ?v = "record_call (PostsolveReturned (fst (runPostsolve env ?t))) ?u"
  have "frame env s ?t" by (rule frame_same) simp_all
  then have sv: "frame env s ?v"
    using frame_runPostsolve[of env ?t] frame_record_postsolve[of env ?u]
    by (blast intro: frame_trans)
  have hot: "frame env s (result_state (run_hot_start env r ?v))"
    by (rule frame_trans[OF sv frame_run_hot_start])
  have failed: "frame env s (snd (run_postsolve_failed env ?v))"
    by (rule frame_trans[OF sv frame_run_postsolve_failed])
  show ?thesis
    using hot failed
    by (cases "ps = Reduced"; cases "ps = ReducedToEmpty";
        auto simp add: run_postsolve_def Let_def split_beta frame_same)
qed

lemma calls_prepare_presolve [simp]: "calls' (prepare_presolve env s) = calls' s"
  by (simp add: prepare_presolve_def Let_def)

lemma same_options_prepare_presolve [simp]: "same_options s (prepare_presolve env s)"
  by (simp add: prepare_presolve_def Let_def same_options_def)

lemma same_options_trans: "same_options s t \<Longrightarrow> same_options t u \<Longrightarrow> same_options s u"
  by (simp add: same_options_def)

lemma same_options_eq: "options' t = options' s \<Longrightarrow> same_options s t"
  by (simp add: same_options_def)

lemma calls_after_presolve:
  "calls' (after_presolve env s) =
     calls' s @ [PresolveReturned (fst (runPresolve env (prepare_presolve env s)))]"
  by (simp add: after_presolve_def)

lemma same_options_after_presolve: "same_options s (after_presolve env s)"
  by (simp add: after_presolve_def same_options_def prepare_presolve_def Let_def)

lemma run_with_presolve_eq:
  "run_with_presolve env ph r s =
     (case run_presolve_switch env (fst (runPresolve env (prepare_presolve env s))) ph r (after_presolve env s) of
        Inl x \<Rightarrow> x
      | Inr (i, r1, s3) \<Rightarrow>
          (case run_postsolve env (fst (runPresolve env (prepare_presolve env s))) i r1 s3 of
             Inl x \<Rightarrow> x
           | Inr (i1, r2, s4) \<Rightarrow> run_finish env i1 r2 s4))"
  by (simp add: run_with_presolve_def after_presolve_def Let_def split_beta)

lemma frame_run_with_presolve:
  "frame env (after_presolve env s) (snd (run_with_presolve env ph r s))"
proof -
  let ?ps = "fst (runPresolve env (prepare_presolve env s))"
  let ?a = "after_presolve env s"
  let ?x = "run_presolve_switch env ?ps ph r ?a"
  have fx: "frame env ?a (result_state ?x)" by (rule frame_run_presolve_switch)
  show ?thesis
  proof (cases ?x)
    case (Inl x)
    then show ?thesis using fx by (simp add: run_with_presolve_eq)
  next
    case (Inr y)
    obtain i r1 s3 where y: "y = (i, r1, s3)" by (cases y)
    let ?z = "run_postsolve env ?ps i r1 s3"
    have f3: "frame env ?a s3" using fx Inr y by simp
    have fz: "frame env ?a (result_state ?z)"
      by (rule frame_trans[OF f3 frame_run_postsolve])
    show ?thesis
    proof (cases ?z)
      case (Inl x)
      then show ?thesis using fz Inr y by (simp add: run_with_presolve_eq)
    next
      case (Inr w)
      obtain i1 r2 s4 where w: "w = (i1, r2, s4)" by (cases w)
      have "frame env ?a s4" using fz Inr w by simp
      then have "frame env ?a (snd (run_finish env i1 r2 s4))"
        by (rule frame_trans[OF _ frame_run_finish])
      then show ?thesis using \<open>?x = Inr y\<close> y Inr w by (simp add: run_with_presolve_eq)
    qed
  qed
qed

lemma frame_run_without_presolve:
  "frame env s (snd (run_without_presolve env r s))"
proof -
  let ?t = "if valid' (basis' (set_lp_name 0 ''LP without presolve or with basis'' s))
            then hmo_update 0 (\<lambda>h. h\<lparr>hmo_basis' := basis' (set_lp_name 0 ''LP without presolve or with basis'' s)\<rparr>) (set_lp_name 0 ''LP without presolve or with basis'' s)
            else set_lp_name 0 ''LP without presolve or with basis'' s"
  let ?m = "''Solving LP without presolve or with basis''"
  have t: "frame env s ?t" by (rule frame_same) simp_all
  have "frame env ?t (snd (runLpSolver env 0 ?m ?t))"
    by (rule frameI[where evs="if 0 < length (hmos' ?t) then [SolveLpCalled 0 ?m (options' ?t)] else []"])
       (simp_all add: calls_runLpSolver stage_ok_def same_options_def)
  then have u: "frame env s (snd (runLpSolver env 0 ?m ?t))" by (rule frame_trans[OF t])
  have v: "frame env s (beforeReturnFromRun env (snd (runLpSolver env 0 ?m ?t)))"
    by (rule frame_cong_right[OF u]) simp_all
  have w: "\<And>r1. frame env s (snd (run_finish env 0 r1 (snd (runLpSolver env 0 ?m ?t))))"
    by (rule frame_trans[OF u frame_run_finish])
  show ?thesis using v w
    by (simp add: run_without_presolve_def Let_def split_beta)
qed

lemma stage_ok_event_ok: "stage_ok env c \<Longrightarrow> event_ok env c"
  by (cases c) (simp_all add: stage_ok_def event_ok_def)

lemma list_all_stage_ok_event_ok: "list_all (stage_ok env) evs \<Longrightarrow> list_all (event_ok env) evs"
  by (induction evs) (simp_all add: stage_ok_event_ok)

lemma extendsI:
  "calls' s1 = calls' s @ evs \<Longrightarrow> list_all (event_ok env) evs \<Longrightarrow> same_options s s1 \<Longrightarrow> extends env s s1"
  by (simp add: extends_def new_calls_def)

lemma frame_extends: "frame env s s1 \<Longrightarrow> extends env s s1"
  by (simp add: frame_def extends_def list_all_stage_ok_event_ok)

lemma extends_run_with_presolve: "extends env s (snd (run_with_presolve env ph r s))"
proof -
  let ?a = "after_presolve env s"
  let ?e = "PresolveReturned (fst (runPresolve env (prepare_presolve env s)))"
  from frameD[OF frame_run_with_presolve[of env s ph r]]
  have c: "calls' (snd (run_with_presolve env ph r s)) = calls' s @ (?e # new_calls ?a (snd (run_with_presolve env ph r s)))"
    and l: "list_all (stage_ok env) (new_calls ?a (snd (run_with_presolve env ph r s)))"
    and o: "same_options ?a (snd (run_with_presolve env ph r s))"
    by (simp_all add: calls_after_presolve)
  have e: "event_ok env ?e" by (simp add: event_ok_def)
  have l1: "list_all (event_ok env) (new_calls ?a (snd (run_with_presolve env ph r s)))"
    by (rule list_all_stage_ok_event_ok[OF l])
  show ?thesis
    by (rule extendsI[OF c]) (simp_all add: e l1 same_options_trans[OF same_options_after_presolve o])
qed

lemma extends_same: "calls' s1 = calls' s \<Longrightarrow> options' s1 = options' s \<Longrightarrow> extends env s s1"
  by (simp add: extends_def new_calls_def same_options_def)

lemma extends_cong_left:
  "calls' t = calls' s \<Longrightarrow> same_options s t \<Longrightarrow> extends env t u \<Longrightarrow> extends env s u"
  by (simp add: extends_def new_calls_def same_options_def)

lemma extends_run_loaded: "extends env s (snd (run_loaded env r s))"
proof -
  have a: "\<And>t ph. calls' t = calls' s \<Longrightarrow> options' t = options' s \<Longrightarrow>
            extends env s (snd (run_with_presolve env ph r t))"
    by (rule extends_cong_left[OF _ _ extends_run_with_presolve]) (simp_all add: same_options_def)
  have b: "\<And>t. calls' t = calls' s \<Longrightarrow> options' t = options' s \<Longrightarrow>
            extends env s (snd (run_without_presolve env r t))"
    by (rule extends_cong_left[OF _ _ frame_extends[OF frame_run_without_presolve]])
       (simp_all add: same_options_def)
  show ?thesis
    by (simp add: run_loaded_def Let_def a b extends_same)
qed

lemma readModel_frame:
  "calls' (snd (readModel env f s)) = calls' s \<and> same_options s (snd (readModel env f s))"
  by (simp add: readModel_def passModel_def reset_def Let_def split_beta small_defs same_options_def)

lemma run_calls:
  "\<exists>evs. calls' (snd (run env s)) =
            calls' s @ RunCalled (valid' (basis' s)) (presolve (options' s)) # evs \<and>
         list_all (event_ok env) evs \<and>
         dual_objective_value_upper_bound (options' (snd (run env s))) =
           dual_objective_value_upper_bound (entry_options env s) \<and>
         highs_min_threads (options' (snd (run env s))) = highs_min_threads (entry_options env s) \<and>
         highs_max_threads (options' (snd (run env s))) = highs_max_threads (entry_options env s)"
proof -
  let ?e = "RunCalled (valid' (basis' s)) (presolve (options' s))"
  let ?s1 = "(record_call ?e s)\<lparr>options' := entry_options env s\<rparr>"
  have ext: "\<And>t r. calls' t = calls' ?s1 \<Longrightarrow> same_options ?s1 t \<Longrightarrow> extends env ?s1 (snd (run_loaded env r t))"
    by (rule extends_cong_left[OF _ _ extends_run_loaded])
  have run_eq: "run env s =
    (if length (hmos' ?s1) = 0 then
       if model_file (options' ?s1) = FILENAME_DEFAULT env then (Error, beforeReturnFromRun env ?s1)
       else if interpretCallStatus (fst (readModel env (model_file (options' ?s1)) ?s1)) OK = Error
            then (interpretCallStatus (fst (readModel env (model_file (options' ?s1)) ?s1)) OK,
                  beforeReturnFromRun env (snd (readModel env (model_file (options' ?s1)) ?s1)))
            else run_loaded env (interpretCallStatus (fst (readModel env (model_file (options' ?s1)) ?s1)) OK)
                   (snd (readModel env (model_file (options' ?s1)) ?s1))
     else run_loaded env OK ?s1)"
    by (simp add: run_def Let_def split_beta entry_options_def record_call_def)
  let ?rm = "readModel env (model_file (options' ?s1)) ?s1"
  have x1: "extends env ?s1 (beforeReturnFromRun env ?s1)"
    by (rule extends_same) simp_all
  have x2: "extends env ?s1 (beforeReturnFromRun env (snd ?rm))"
    using readModel_frame[of env "model_file (options' ?s1)" ?s1]
    by (intro extendsI[where evs="[]"]) (simp_all add: same_options_def)
  have x3: "\<And>r. extends env ?s1 (snd (run_loaded env r (snd ?rm)))"
    using readModel_frame[of env "model_file (options' ?s1)" ?s1]
    by (intro ext) simp_all
  have x4: "extends env ?s1 (snd (run_loaded env OK ?s1))"
    by (rule extends_run_loaded)
  have "extends env ?s1 (snd (run env s))"
    unfolding run_eq using x1 x2 x3 x4 by simp
  then have "calls' (snd (run env s)) = calls' ?s1 @ new_calls ?s1 (snd (run env s))"
    and "list_all (event_ok env) (new_calls ?s1 (snd (run env s)))"
    and "same_options ?s1 (snd (run env s))"
    unfolding extends_def new_calls_def by (metis append_take_drop_id, simp_all)
  then show ?thesis
    by (intro exI[where x="new_calls ?s1 (snd (run env s))"]) (simp add: same_options_def)
qed

subsection \<open>The size of the pool\<close>

lemma pool_ok_simps [simp]:
  "pool_ok (Inl x) = (length (hmos' (snd x)) = 1)"
  "pool_ok (Inr (i, r, s1)) = (length (hmos' s1) = 1 \<or> length (hmos' s1) = 2)"
  by (simp_all add: pool_ok_def split_beta)

lemma length_hmos_run_presolve_status:
  "length (hmos' (snd (run_presolve_status env st r s))) =
     (if 1 < length (hmos' s) then length (hmos' s) - 1 else length (hmos' s))"
  by (simp add: run_presolve_status_def Let_def length_hmos_beforeReturnFromRun)

lemma length_hmos_run_postsolve_failed:
  "length (hmos' (snd (run_postsolve_failed env s))) =
     (if 1 < length (hmos' s) then length (hmos' s) - 1 else length (hmos' s))"
  by (simp add: run_postsolve_failed_def Let_def length_hmos_beforeReturnFromRun)

lemma pool_run_solve_original:
  "length (hmos' s) = 1 \<Longrightarrow> pool_ok (run_solve_original env n m i r s)"
  by (simp add: run_solve_original_def Let_def split_beta length_hmos_beforeReturnFromRun)

lemma pool_run_solve_reduced:
  "length (hmos' s) = 1 \<Longrightarrow> pool_ok (run_solve_reduced env ph r s)"
  by (simp add: run_solve_reduced_def Let_def split_beta length_hmos_beforeReturnFromRun)

lemma pool_run_presolve_switch:
  "length (hmos' s) = 1 \<Longrightarrow> pool_ok (run_presolve_switch env ps ph r s)"
  by (cases ps)
     (simp_all add: pool_run_solve_original pool_run_solve_reduced Let_def
        length_hmos_run_presolve_status split_beta)

lemma pool_run_hot_start:
  "length (hmos' s) = 1 \<or> length (hmos' s) = 2 \<Longrightarrow> pool_ok (run_hot_start env r s)"
  by (auto simp add: run_hot_start_def Let_def split_beta length_hmos_beforeReturnFromRun)

lemma hmos_prepare_postsolve [simp]: "length (hmos' (prepare_postsolve ps i s)) = length (hmos' s)"
  by (simp add: prepare_postsolve_def Let_def)

lemma pool_run_postsolve:
  "length (hmos' s) = 1 \<or> length (hmos' s) = 2 \<Longrightarrow> pool_ok (run_postsolve env ps i r s)"
  by (auto simp add: run_postsolve_def Let_def split_beta pool_run_hot_start
        length_hmos_run_postsolve_failed)

lemma hmos_prepare_presolve [simp]: "length (hmos' (prepare_presolve env s)) = length (hmos' s)"
  by (simp add: prepare_presolve_def Let_def)

lemma pool_run_with_presolve:
  assumes "length (hmos' s) = 1"
  shows "length (hmos' (snd (run_with_presolve env ph r s))) = 1"
proof -
  let ?ps = "fst (runPresolve env (prepare_presolve env s))"
  let ?a = "after_presolve env s"
  let ?x = "run_presolve_switch env ?ps ph r ?a"
  have la: "length (hmos' ?a) = 1" using assms by (simp add: after_presolve_def)
  have px: "pool_ok ?x" by (rule pool_run_presolve_switch[OF la])
  show ?thesis
  proof (cases ?x)
    case (Inl x)
    then show ?thesis using px by (cases x) (simp add: run_with_presolve_eq)
  next
    case (Inr y)
    obtain i r1 s3 where y: "y = (i, r1, s3)" by (cases y)
    let ?z = "run_postsolve env ?ps i r1 s3"
    have l3: "length (hmos' s3) = 1 \<or> length (hmos' s3) = 2" using px Inr y by simp
    have pz: "pool_ok ?z" by (rule pool_run_postsolve[OF l3])
    show ?thesis
    proof (cases ?z)
      case (Inl x)
      then show ?thesis using pz \<open>?x = Inr y\<close> y by (cases x) (simp add: run_with_presolve_eq)
    next
      case (Inr w)
      obtain i1 r2 s4 where w: "w = (i1, r2, s4)" by (cases w)
      have "length (hmos' s4) = 1 \<or> length (hmos' s4) = 2" using pz Inr w by simp
      then have "length (hmos' (snd (run_finish env i1 r2 s4))) = 1"
        by (auto simp add: length_hmos_run_finish)
      then show ?thesis using \<open>?x = Inr y\<close> y Inr w by (simp add: run_with_presolve_eq)
    qed
  qed
qed

lemma pool_run_without_presolve:
  "length (hmos' s) = 1 \<Longrightarrow> length (hmos' (snd (run_without_presolve env r s))) = 1"
  by (simp add: run_without_presolve_def Let_def split_beta length_hmos_run_finish
        length_hmos_beforeReturnFromRun)

lemma pool_run_loaded:
  "length (hmos' s) = 1 \<Longrightarrow> length (hmos' (snd (run_loaded env r s))) = 1"
  by (simp add: run_loaded_def Let_def pool_run_with_presolve pool_run_without_presolve
        length_hmos_beforeReturnFromRun)

subsection \<open>An error status on context 0 is finalised as an error\<close>

lemma resize_0 [simp]: "resize 0 d xs = []"
  by (simp add: resize_def)

lemma finalise_error:
  "is_error_status st \<or> st = NOTSET \<Longrightarrow> all_cleared env (finalise_for_status env st s)"
  by (cases st) (simp_all add: all_cleared_def solution_empty_def basis_cleared_def small_defs)

lemma beforeReturnFromRun_error:
  "is_error_status (scaled_model_status' s) \<or> scaled_model_status' s = NOTSET \<or> hmos' s = [] \<Longrightarrow>
   all_cleared env (beforeReturnFromRun env s)"
  by (auto simp add: beforeReturnFromRun_def Let_def finalise_error)
     (simp_all add: all_cleared_def solution_empty_def basis_cleared_def small_defs)

lemma hsfms_Error:
  "highsStatusFromHighsModelStatus st = Error \<longleftrightarrow> (is_error_status st \<or> st = NOTSET)"
  by (cases st) simp_all

lemma interpretCallStatus_Error [simp]:
  "interpretCallStatus Error r = Error" "interpretCallStatus c Error = Error"
  by (simp_all add: interpretCallStatus_def)

lemma hmos0_beforeReturnFromRun [simp]:
  "hmos' (beforeReturnFromRun env s) ! 0 = hmos' s ! 0"
  by (cases "hmos' s" rule: rev_cases) (auto simp add: hmos_beforeReturnFromRun nth_append)

lemma hmos_empty_beforeReturnFromRun [simp]:
  "(hmos' (beforeReturnFromRun env s) = []) = (hmos' s = [])"
  by (cases "hmos' s" rule: rev_cases) (auto simp add: hmos_beforeReturnFromRun)

lemma good_Error:
  "is_error_status (scaled_model_status' s) \<or> scaled_model_status' s = NOTSET \<or> hmos' s = [] \<Longrightarrow>
   good env (Error, beforeReturnFromRun env s)"
  using beforeReturnFromRun_error[of s env] by (simp add: good_def)

lemma scaled_runLpSolver [simp]:
  "scaled_model_status' (snd (runLpSolver env i m s)) = scaled_model_status' s"
  by (simp add: runLpSolver_def Let_def small_defs split_beta)

lemma hmos_nonempty_runLpSolver [simp]:
  "(hmos' (snd (runLpSolver env i m s)) = []) = (hmos' s = [])"
  using length_hmos_runLpSolver[of env i m s] by (metis length_0_conv)

lemma pre_runLpSolver [simp]: "pre (snd (runLpSolver env i m s)) = pre s"
  by (simp add: pre_def)

lemma scaled_set_lp_name [simp]: "scaled_model_status' (set_lp_name i n s) = scaled_model_status' s"
  by (simp add: set_lp_name_def split: lp_ref.splits)

lemma pre_set_lp_name [simp]: "pre (set_lp_name i n s) = pre s"
  by (simp add: pre_def)

lemma scaled_hmo_update [simp]: "scaled_model_status' (hmo_update i f s) = scaled_model_status' s"
  by (simp add: hmo_update_def)

lemma hmos_nonempty_hmo_update [simp]: "(hmos' (hmo_update i f s) = []) = (hmos' s = [])"
  by (simp add: hmo_update_def)

lemma pre_hmo_update [simp]: "pre (hmo_update i f s) = pre s"
  by (simp add: pre_def)

lemma pre_record_call [simp]: "pre (record_call c s) = pre s"
  by (simp add: pre_def record_call_def)

lemma hmo0_hmo_update [simp]:
  "hmos' s \<noteq> [] \<Longrightarrow> hmos' (hmo_update 0 f s) ! 0 = f (hmos' s ! 0)"
  by (simp add: hmo_update_def)

lemma rel_0 [simp]: "rel s 0"
  by (simp add: rel_def)

lemma interpret_hsfms_Error:
  "is_error_status st \<or> st = NOTSET \<Longrightarrow>
   interpretCallStatus (highsStatusFromHighsModelStatus st) r = Error"
  using hsfms_Error[of st] by simp

lemma good_run_finish:
  "hmos' s \<noteq> [] \<Longrightarrow> rel s i \<Longrightarrow> good env (run_finish env i r s)"
  by (auto simp add: run_finish_def Let_def getHighsModelStatusAndInfo_def haveHmo_def good_def
       rel_def interpret_hsfms_Error beforeReturnFromRun_error)

lemma hmo_update_fields [simp]:
  "model_status' (hmo_update i f s) = model_status' s"
  "solution' (hmo_update i f s) = solution' s"
  "basis' (hmo_update i f s) = basis' s"
  "info' (hmo_update i f s) = info' s"
  "lp' (hmo_update i f s) = lp' s"
  "presolve' (hmo_update i f s) = presolve' s"
  by (simp_all add: hmo_update_def)

lemma record_call_fields [simp]:
  "model_status' (record_call c s) = model_status' s"
  "scaled_model_status' (record_call c s) = scaled_model_status' s"
  "solution' (record_call c s) = solution' s"
  "basis' (record_call c s) = basis' s"
  "info' (record_call c s) = info' s"
  "lp' (record_call c s) = lp' s"
  "presolve' (record_call c s) = presolve' s"
  by (simp_all add: record_call_def)

lemma set_lp_name_fields [simp]:
  "model_status' (set_lp_name i n s) = model_status' s"
  "solution' (set_lp_name i n s) = solution' s"
  "basis' (set_lp_name i n s) = basis' s"
  "info' (set_lp_name i n s) = info' s"
  by (simp_all add: set_lp_name_def split: lp_ref.splits)

lemma seg_good_simps [simp]:
  "seg_good env Q (Inl y) = good env y"
  "seg_good env Q (Inr (i, r, s1)) = Q i s1"
  by (simp_all add: seg_good_def)

lemma seg_good_if:
  "seg_good env Q (if b then x else y) = (if b then seg_good env Q x else seg_good env Q y)"
  by simp

lemma scaled_runPresolve_init:
  "runPresolve_init env s = Inr s1 \<Longrightarrow> scaled_model_status' s1 = scaled_model_status' s"
  "runPresolve_init env s = Inl (st, s2) \<Longrightarrow> scaled_model_status' s2 = scaled_model_status' s"
  by (auto simp add: runPresolve_init_def Let_def split: if_splits)

lemma scaled_runPresolve [simp]:
  "scaled_model_status' (snd (runPresolve env s)) = scaled_model_status' s"
  by (auto simp add: runPresolve_def Let_def scaled_runPresolve_init split: prod.splits sum.splits)

lemma scaled_runPostsolve [simp]:
  "scaled_model_status' (snd (runPostsolve env s)) = scaled_model_status' s"
  by (simp add: runPostsolve_def Let_def small_defs split_beta)

lemma pre_runPresolve [simp]: "pre (snd (runPresolve env s)) = pre s"
  by (simp add: pre_def)

lemma pre_runPostsolve [simp]: "pre (snd (runPostsolve env s)) = pre s"
  by (simp add: pre_def)

lemma good_run_presolve_status_Error:
  "hmos' s \<noteq> [] \<Longrightarrow> good env (run_presolve_status env st Error s)"
  by (cases "is_error_status st")
     (auto simp add: run_presolve_status_def Let_def good_def beforeReturnFromRun_error)

lemma good_run_presolve_status_ok:
  "hmos' s \<noteq> [] \<Longrightarrow> \<not> is_error_status st \<Longrightarrow> good env (run_presolve_status env st r s)"
  by (auto simp add: run_presolve_status_def Let_def good_def)

lemma seg_run_solve_original:
  "pre s \<Longrightarrow> seg_good env (\<lambda>j t. pre t \<and> j = i) (run_solve_original env n m i r s)"
  by (auto simp add: run_solve_original_def Let_def split_beta pre_def intro!: good_Error)

lemma seg_run_solve_reduced:
  "pre s \<Longrightarrow> hmo_scaled_model_status' (hmos' s ! 0) = NOTSET \<Longrightarrow>
   seg_good env (\<lambda>j t. pre t) (run_solve_reduced env ph r s)"
  by (auto simp add: run_solve_reduced_def Let_def split_beta pre_def good_def
        interpretCallStatus_def beforeReturnFromRun_error)

lemma seg_run_presolve_switch:
  "pre s \<Longrightarrow> hmo_scaled_model_status' (hmos' s ! 0) = NOTSET \<Longrightarrow>
   seg_good env (\<lambda>j t. pre t \<and> (ps \<noteq> Reduced \<longrightarrow> j = 0)) (run_presolve_switch env ps ph r s)"
proof (cases ps)
  assume p: "pre s"
  case NotPresolved
  then show ?thesis
    using seg_run_solve_original[OF p, of env 0 "''Original LP''" "''Not presolved: solving the LP''" r]
    by (auto simp add: seg_good_def split: sum.splits)
next
  assume p: "pre s"
  case NotReduced
  then show ?thesis
    using seg_run_solve_original[OF p, of env 0 "''Unreduced LP''"
            "''Problem not reduced by presolve: solving the LP''" r]
    by (auto simp add: seg_good_def split: sum.splits)
next
  assume p: "pre s" and q: "hmo_scaled_model_status' (hmos' s ! 0) = NOTSET"
  case Reduced
  then show ?thesis using seg_run_solve_reduced[OF p q, of env ph r] by simp
qed (simp_all add: Let_def pre_def good_run_presolve_status_Error good_run_presolve_status_ok, simp_all add: good_def)

lemma seg_run_hot_start:
  "pre s \<Longrightarrow> seg_good env (\<lambda>j t. pre t \<and> j = 0) (run_hot_start env r s)"
  by (auto simp add: run_hot_start_def Let_def split_beta pre_def good_def beforeReturnFromRun_error)

lemma good_run_postsolve_failed:
  "hmos' s \<noteq> [] \<Longrightarrow> good env (run_postsolve_failed env s)"
  by (auto simp add: run_postsolve_failed_def Let_def good_def beforeReturnFromRun_error)

lemma pre_prepare_postsolve [simp]: "pre (prepare_postsolve ps i s) = pre s"
  by (simp add: prepare_postsolve_def Let_def pre_def)

lemma seg_run_postsolve:
  assumes "pre s" and "ps \<noteq> Reduced \<longrightarrow> i = 0"
  shows "seg_good env (\<lambda>j t. hmos' t \<noteq> [] \<and> rel t j) (run_postsolve env ps i r s)"
proof -
  let ?t = "prepare_postsolve ps i s"
  let ?v = "record_call (PostsolveReturned (fst (runPostsolve env ?t))) (snd (runPostsolve env ?t))"
  have pv: "pre ?v" using assms by simp
  have hot: "seg_good env (\<lambda>j t. hmos' t \<noteq> [] \<and> rel t j) (run_hot_start env r ?v)"
    using seg_run_hot_start[OF pv, of env r]
    by (auto simp add: seg_good_def pre_def split: sum.splits)
  have failed: "good env (run_postsolve_failed env ?v)"
    using pv by (intro good_run_postsolve_failed) (simp add: pre_def)
  have ne: "hmos' s \<noteq> []" using assms by (simp add: pre_def)
  show ?thesis
  proof (cases "hmo_scaled_model_status' (hmos' s ! i) = OPTIMAL")
    case True
    show ?thesis
    proof (cases "ps = Reduced \<or> ps = ReducedToEmpty")
      case r: True
      then show ?thesis using True hot failed
        by (auto simp add: run_postsolve_def Let_def split_beta)
    next
      case False
      then show ?thesis using True assms ne
        by (simp add: run_postsolve_def Let_def)
    qed
  next
    case False
    then show ?thesis using ne
      by (cases "i = 0") (simp_all add: run_postsolve_def Let_def rel_def hmo_update_def nth_list_update)
  qed
qed

lemma hmos_nonempty_runPresolve [simp]: "(hmos' (snd (runPresolve env s)) = []) = (hmos' s = [])"
  by simp

lemma pre_prepare_presolve [simp]: "pre (prepare_presolve env s) = pre s"
  by (simp add: prepare_presolve_def Let_def pre_def)

lemma pre_after_presolve [simp]: "pre (after_presolve env s) = pre s"
  by (simp add: after_presolve_def)

lemma hmo0_after_presolve:
  "hmos' s \<noteq> [] \<Longrightarrow> hmo_scaled_model_status' (hmos' (after_presolve env s) ! 0) = NOTSET"
  by (simp add: after_presolve_def prepare_presolve_def Let_def)

lemma good_run_with_presolve:
  assumes "pre s"
  shows "good env (run_with_presolve env ph r s)"
proof -
  let ?ps = "fst (runPresolve env (prepare_presolve env s))"
  let ?a = "after_presolve env s"
  let ?x = "run_presolve_switch env ?ps ph r ?a"
  have pa: "pre ?a" using assms by simp
  have h0: "hmo_scaled_model_status' (hmos' ?a ! 0) = NOTSET"
    using assms by (intro hmo0_after_presolve) (simp add: pre_def)
  have sx: "seg_good env (\<lambda>j t. pre t \<and> (?ps \<noteq> Reduced \<longrightarrow> j = 0)) ?x"
    by (rule seg_run_presolve_switch[OF pa h0])
  show ?thesis
  proof (cases ?x)
    case (Inl x)
    then show ?thesis using sx by (simp add: run_with_presolve_eq)
  next
    case (Inr y)
    obtain i r1 s3 where y: "y = (i, r1, s3)" by (cases y)
    let ?z = "run_postsolve env ?ps i r1 s3"
    have p3: "pre s3" and i0: "?ps \<noteq> Reduced \<longrightarrow> i = 0" using sx Inr y by simp_all
    have sz: "seg_good env (\<lambda>j t. hmos' t \<noteq> [] \<and> rel t j) ?z"
      by (rule seg_run_postsolve[OF p3 i0])
    show ?thesis
    proof (cases ?z)
      case (Inl x)
      then show ?thesis using sz \<open>?x = Inr y\<close> y by (simp add: run_with_presolve_eq)
    next
      case (Inr w)
      obtain i1 r2 s4 where w: "w = (i1, r2, s4)" by (cases w)
      have "hmos' s4 \<noteq> []" and "rel s4 i1" using sz Inr w by simp_all
      then have "good env (run_finish env i1 r2 s4)" by (rule good_run_finish)
      then show ?thesis using \<open>?x = Inr y\<close> y Inr w by (simp add: run_with_presolve_eq)
    qed
  qed
qed

lemma good_run_without_presolve:
  "pre s \<Longrightarrow> good env (run_without_presolve env r s)"
  by (auto simp add: run_without_presolve_def Let_def split_beta pre_def
        intro!: good_Error good_run_finish)

lemma good_run_loaded:
  assumes "hmos' s \<noteq> []"
  shows "good env (run_loaded env r s)"
proof -
  let ?s4 = "(hmo_update 0 (\<lambda>h. h\<lparr>hmo_unscaled_model_status' := NOTSET\<rparr>)
               (hmo_update 0 (\<lambda>h. h\<lparr>hmo_scaled_model_status' := NOTSET\<rparr>) s))
             \<lparr>model_status' := NOTSET, scaled_model_status' := NOTSET\<rparr>"
  have p: "pre ?s4" using assms by (simp add: pre_def)
  have e: "numCol' (lp' s) = 0 \<Longrightarrow> good env (run_loaded env r s)"
    using assms by (simp add: run_loaded_def Let_def good_def)
  show ?thesis
  proof (cases "numCol' (lp' s) = 0")
    case True
    then show ?thesis by (rule e)
  next
    case False
    then show ?thesis
      using assms good_run_with_presolve[OF p, of env "length (hmos' s)" r]
        good_run_without_presolve[OF p, of env r]
      by (simp add: run_loaded_def Let_def)
  qed
qed

lemma hmos_readModel:
  "hmos' s = [] \<Longrightarrow>
   (hmos' (snd (readModel env f s)) = []) = (interpretCallStatus (fst (readModel env f s)) OK = Error)"
  by (auto simp add: readModel_def passModel_def reset_def Let_def split_beta small_defs
        interpretCallStatus_def split: if_splits)

lemma good_run: "good env (run env s)"
proof -
  let ?e = "RunCalled (valid' (basis' s)) (presolve (options' s))"
  let ?s1 = "(record_call ?e s)\<lparr>options' := entry_options env s\<rparr>"
  let ?rm = "readModel env (model_file (options' ?s1)) ?s1"
  have run_eq: "run env s =
    (if length (hmos' ?s1) = 0 then
       if model_file (options' ?s1) = FILENAME_DEFAULT env then (Error, beforeReturnFromRun env ?s1)
       else if interpretCallStatus (fst ?rm) OK = Error
            then (interpretCallStatus (fst ?rm) OK, beforeReturnFromRun env (snd ?rm))
            else run_loaded env (interpretCallStatus (fst ?rm) OK) (snd ?rm)
     else run_loaded env OK ?s1)"
    by (simp add: run_def Let_def split_beta entry_options_def record_call_def)
  have a: "hmos' ?s1 = [] \<Longrightarrow> good env (Error, beforeReturnFromRun env ?s1)"
    by (simp add: good_def)
  have b: "hmos' ?s1 = [] \<Longrightarrow> interpretCallStatus (fst ?rm) OK = Error \<Longrightarrow>
           good env (Error, beforeReturnFromRun env (snd ?rm))"
    using hmos_readModel[of ?s1 env "model_file (options' ?s1)"] by (simp add: good_def)
  have c: "hmos' ?s1 = [] \<Longrightarrow> interpretCallStatus (fst ?rm) OK \<noteq> Error \<Longrightarrow>
           good env (run_loaded env (interpretCallStatus (fst ?rm) OK) (snd ?rm))"
    using hmos_readModel[of ?s1 env "model_file (options' ?s1)"] by (intro good_run_loaded) simp
  have d: "hmos' ?s1 \<noteq> [] \<Longrightarrow> good env (run_loaded env OK ?s1)"
    by (rule good_run_loaded)
  show ?thesis unfolding run_eq using a b c d by auto
qed

subsection \<open>The path of run after a presolve event\<close>

lemma new_calls_append: "calls' s1 = calls' s @ evs \<Longrightarrow> new_calls s s1 = evs"
  by (simp add: new_calls_def)

lemma stage_ok_not_presolve: "stage_ok env c \<Longrightarrow> \<not> is_PresolveReturned c \<and> \<not> is_RunCalled c"
  by (cases c) (simp_all add: stage_ok_def)

lemma list_all_stage_ok_not_presolve:
  "list_all (stage_ok env) evs \<Longrightarrow> PresolveReturned ps \<notin> set evs"
  by (induction evs) (auto simp add: stage_ok_def)

lemma new_calls_run_with_presolve:
  "\<exists>evs. new_calls s (snd (run_with_presolve env ph r s)) =
           PresolveReturned (fst (runPresolve env (prepare_presolve env s))) # evs \<and>
         list_all (stage_ok env) evs"
proof -
  let ?a = "after_presolve env s"
  let ?res = "snd (run_with_presolve env ph r s)"
  from frameD[OF frame_run_with_presolve[of env s ph r]]
  have "calls' ?res = calls' s @ (PresolveReturned (fst (runPresolve env (prepare_presolve env s))) # new_calls ?a ?res)"
    and l: "list_all (stage_ok env) (new_calls ?a ?res)"
    by (simp_all add: calls_after_presolve)
  then have "new_calls s ?res =
      PresolveReturned (fst (runPresolve env (prepare_presolve env s))) # new_calls ?a ?res"
    by (intro new_calls_append)
  then show ?thesis using l by blast
qed

lemma presolve_event_run_with_presolve:
  "PresolveReturned ps \<in> set (new_calls s (snd (run_with_presolve env ph r s))) \<Longrightarrow>
   ps = fst (runPresolve env (prepare_presolve env s))"
proof -
  assume a: "PresolveReturned ps \<in> set (new_calls s (snd (run_with_presolve env ph r s)))"
  from new_calls_run_with_presolve[of s env ph r]
  obtain evs where e: "new_calls s (snd (run_with_presolve env ph r s)) =
           PresolveReturned (fst (runPresolve env (prepare_presolve env s))) # evs"
    and l: "list_all (stage_ok env) evs" by blast
  have "PresolveReturned ps \<notin> set evs" by (rule list_all_stage_ok_not_presolve[OF l])
  then show ?thesis using a unfolding e by simp
qed

lemma presolve_event_run_without_presolve:
  "PresolveReturned ps \<notin> set (new_calls s (snd (run_without_presolve env r s)))"
proof -
  from frameD[OF frame_run_without_presolve[of env s r]]
  have "list_all (stage_ok env) (new_calls s (snd (run_without_presolve env r s)))" by blast
  then show ?thesis by (rule list_all_stage_ok_not_presolve)
qed

lemma reset_status_fields [simp]:
  "calls' (reset_status s) = calls' s"
  "options' (reset_status s) = options' s"
  "solution' (reset_status s) = solution' s"
  "basis' (reset_status s) = basis' s"
  "lp' (reset_status s) = lp' s"
  "length (hmos' (reset_status s)) = length (hmos' s)"
  "(hmos' (reset_status s) = []) = (hmos' s = [])"
  "scaled_model_status' (reset_status s) = NOTSET"
  by (simp_all add: reset_status_def)

lemma run_loaded_eq:
  "hmos' s \<noteq> [] \<Longrightarrow> numCol' (lp' s) \<noteq> 0 \<Longrightarrow>
   run_loaded env r s =
     (if \<not> valid' (basis' s) \<and> presolve (options' s) \<noteq> off_string env
      then run_with_presolve env (length (hmos' s)) r (reset_status s)
      else run_without_presolve env r (reset_status s))"
  by (simp add: run_loaded_def Let_def reset_status_def hmo_update_def)

lemma calls_run_loaded_empty:
  "numCol' (lp' s) = 0 \<Longrightarrow> calls' (snd (run_loaded env r s)) = calls' s"
  by (simp add: run_loaded_def Let_def)

lemma new_calls_cong: "calls' t = calls' s \<Longrightarrow> new_calls t u = new_calls s u"
  by (simp add: new_calls_def)

lemma new_calls_same: "calls' u = calls' s \<Longrightarrow> new_calls s u = []"
  by (simp add: new_calls_def)

lemma presolve_event_run_loaded:
  assumes "hmos' s \<noteq> []"
    and "PresolveReturned ps \<in> set (new_calls s (snd (run_loaded env r s)))"
  shows "run_loaded env r s = run_with_presolve env (length (hmos' s)) r (reset_status s) \<and>
         ps = fst (runPresolve env (prepare_presolve env (reset_status s)))"
proof -
  have nc: "\<And>u. new_calls s u = new_calls (reset_status s) u" by (rule new_calls_cong[symmetric]) simp
  show ?thesis
  proof (cases "numCol' (lp' s) = 0")
    case True
    then show ?thesis using assms(2) by (simp add: new_calls_same calls_run_loaded_empty)
  next
    case False
    show ?thesis
      using assms(2) presolve_event_run_with_presolve[of ps "reset_status s" env "length (hmos' s)" r]
        presolve_event_run_without_presolve[of ps "reset_status s" env r]
      unfolding run_loaded_eq[OF assms(1) False] nc
      by (auto split: if_splits)
  qed
qed

lemma entry_state_fields [simp]:
  "calls' (entry_state env s) = calls' s @ [RunCalled (valid' (basis' s)) (presolve (options' s))]"
  "options' (entry_state env s) = entry_options env s"
  "hmos' (entry_state env s) = hmos' s"
  "solution' (entry_state env s) = solution' s"
  "basis' (entry_state env s) = basis' s"
  "lp' (entry_state env s) = lp' s"
  by (simp_all add: entry_state_def record_call_def)

lemma run_eq:
  "run env s =
    (if length (hmos' s) = 0 then
       if model_file (entry_options env s) = FILENAME_DEFAULT env
       then (Error, beforeReturnFromRun env (entry_state env s))
       else if interpretCallStatus (fst (readModel env (model_file (entry_options env s)) (entry_state env s))) OK = Error
            then (interpretCallStatus (fst (readModel env (model_file (entry_options env s)) (entry_state env s))) OK,
                  beforeReturnFromRun env (snd (readModel env (model_file (entry_options env s)) (entry_state env s))))
            else run_loaded env (interpretCallStatus (fst (readModel env (model_file (entry_options env s)) (entry_state env s))) OK)
                   (snd (readModel env (model_file (entry_options env s)) (entry_state env s)))
     else run_loaded env OK (entry_state env s))"
  by (simp add: run_def Let_def split_beta entry_options_def entry_state_def record_call_def)

lemma new_calls_snoc:
  "calls' t = calls' s @ [c] \<Longrightarrow> take (length (calls' t)) (calls' u) = calls' t \<Longrightarrow>
   new_calls s u = c # new_calls t u"
proof -
  assume a: "calls' t = calls' s @ [c]" and b: "take (length (calls' t)) (calls' u) = calls' t"
  define xs where "xs = new_calls t u"
  have "calls' u = calls' t @ xs"
    unfolding xs_def new_calls_def using b by (metis append_take_drop_id)
  then have cu: "calls' u = calls' s @ c # xs" using a by simp
  have "new_calls s u = drop (length (calls' s)) (calls' s @ c # xs)"
    by (simp only: new_calls_def cu)
  then show ?thesis by (simp add: xs_def)
qed

lemma presolve_event_run:
  assumes "PresolveReturned ps \<in> set (new_calls s (snd (run env s)))"
  shows "\<exists>t r. run env s = run_with_presolve env (length (hmos' t)) r (reset_status t) \<and>
               hmos' t \<noteq> [] \<and>
               ps = fst (runPresolve env (prepare_presolve env (reset_status t))) \<and>
               calls' t = calls' s @ [RunCalled (valid' (basis' s)) (presolve (options' s))] \<and>
               (hmos' s \<noteq> [] \<longrightarrow> t = entry_state env s)"
proof -
  let ?e = "entry_state env s"
  let ?rm = "readModel env (model_file (entry_options env s)) ?e"
  have ce: "calls' ?e = calls' s @ [RunCalled (valid' (basis' s)) (presolve (options' s))]" by simp
  have crm: "calls' (snd ?rm) = calls' ?e" using readModel_frame[of env _ ?e] by simp
  have tk: "\<And>t r. take (length (calls' t)) (calls' (snd (run_loaded env r t))) = calls' t"
  proof -
    fix t r
    show "take (length (calls' t)) (calls' (snd (run_loaded env r t))) = calls' t"
      using extends_run_loaded[of env t r] unfolding extends_def by blast
  qed
  have nc: "\<And>t r. calls' t = calls' ?e \<Longrightarrow>
      new_calls s (snd (run_loaded env r t)) =
        RunCalled (valid' (basis' s)) (presolve (options' s)) # new_calls t (snd (run_loaded env r t))"
  proof -
    fix t :: Highs and r
    assume c: "calls' t = calls' ?e"
    show "new_calls s (snd (run_loaded env r t)) =
        RunCalled (valid' (basis' s)) (presolve (options' s)) # new_calls t (snd (run_loaded env r t))"
      by (rule new_calls_snoc[OF _ tk]) (simp add: c)
  qed
  show ?thesis
  proof (cases "hmos' s = []")
    case False
    then have r: "run env s = run_loaded env OK ?e" by (simp add: run_eq)
    have "PresolveReturned ps \<in> set (new_calls ?e (snd (run_loaded env OK ?e)))"
      using assms unfolding r nc[OF refl] by simp
    from presolve_event_run_loaded[OF _ this] False
    show ?thesis unfolding r by (intro exI[where x="?e"] exI[where x=OK]) simp
  next
    case True
    let ?r = "interpretCallStatus (fst ?rm) OK"
    have n1: "new_calls s (beforeReturnFromRun env ?e) = [RunCalled (valid' (basis' s)) (presolve (options' s))]"
      by (simp add: new_calls_def)
    have n2: "new_calls s (beforeReturnFromRun env (snd ?rm)) = [RunCalled (valid' (basis' s)) (presolve (options' s))]"
      using crm by (simp add: new_calls_def)
    have ok: "?r \<noteq> Error \<and> model_file (entry_options env s) \<noteq> FILENAME_DEFAULT env"
      using assms True n1 n2 by (auto simp add: run_eq split: if_splits)
    then have r: "run env s = run_loaded env ?r (snd ?rm)" using True by (simp add: run_eq)
    have ne: "hmos' (snd ?rm) \<noteq> []"
      using hmos_readModel[of ?e env "model_file (entry_options env s)"] True ok by simp
    have "PresolveReturned ps \<in> set (new_calls (snd ?rm) (snd (run_loaded env ?r (snd ?rm))))"
      using assms unfolding r nc[OF crm] by simp
    from presolve_event_run_loaded[OF ne this] ne crm True
    show ?thesis unfolding r by (intro exI[where x="snd ?rm"] exI[where x="?r"]) simp
  qed
qed

lemma clearSolution_fields [simp]:
  "model_status' (clearSolution s) = model_status' s"
  "scaled_model_status' (clearSolution s) = scaled_model_status' s"
  "basis' (clearSolution s) = basis' s"
  "solution_empty (solution' (clearSolution s))"
  by (simp_all add: clearSolution_def solution_empty_def)

lemma clearInfo_fields [simp]:
  "model_status' (clearInfo env s) = model_status' s"
  "scaled_model_status' (clearInfo env s) = scaled_model_status' s"
  "basis' (clearInfo env s) = basis' s"
  "solution' (clearInfo env s) = solution' s"
  by (simp_all add: clearInfo_def)

lemma clearBasis_fields [simp]:
  "model_status' (clearBasis s) = model_status' s"
  "scaled_model_status' (clearBasis s) = scaled_model_status' s"
  "basis_cleared (basis' (clearBasis s))"
  "solution' (clearBasis s) = solution' s"
  by (simp_all add: clearBasis_def basis_cleared_def)

lemma beforeReturnFromRun_eq:
  "hmos' s \<noteq> [] \<Longrightarrow>
   beforeReturnFromRun env s =
     finalise_for_status env (scaled_model_status' s)
       (if 1 < length (hmos' s) then s\<lparr>hmos' := butlast (hmos' s)\<rparr> else s)"
  by (simp add: beforeReturnFromRun_def Let_def)

lemma beforeReturnFromRun_found:
  assumes "hmos' s \<noteq> []"
    and "scaled_model_status' s = PRIMAL_INFEASIBLE \<or> scaled_model_status' s = PRIMAL_UNBOUNDED"
  shows "model_status' (beforeReturnFromRun env s) = model_status' s \<and>
         scaled_model_status' (beforeReturnFromRun env s) = scaled_model_status' s \<and>
         solution_empty (solution' (beforeReturnFromRun env s))"
  using assms by (auto simp add: beforeReturnFromRun_eq)

lemma run_presolve_status_found:
  assumes "hmos' s \<noteq> []" and "st = PRIMAL_INFEASIBLE \<or> st = PRIMAL_UNBOUNDED"
  shows "model_status' (snd (run_presolve_status env st r s)) = st \<and>
         scaled_model_status' (snd (run_presolve_status env st r s)) = st \<and>
         solution_empty (solution' (snd (run_presolve_status env st r s))) \<and>
         hmo_unscaled_model_status' (hmos' (snd (run_presolve_status env st r s)) ! 0) = st \<and>
         hmo_scaled_model_status' (hmos' (snd (run_presolve_status env st r s)) ! 0) = st"
proof -
  let ?s4 = "hmo_update 0 (\<lambda>h. h\<lparr>hmo_scaled_model_status' := st\<rparr>)
              (hmo_update 0 (\<lambda>h. h\<lparr>hmo_unscaled_model_status' := st\<rparr>)
                 (s\<lparr>model_status' := st, scaled_model_status' := st\<rparr>))"
  have e: "snd (run_presolve_status env st r s) = beforeReturnFromRun env ?s4"
    by (simp add: run_presolve_status_def Let_def)
  have ne: "hmos' ?s4 \<noteq> []" using assms(1) by simp
  have sc: "scaled_model_status' ?s4 = PRIMAL_INFEASIBLE \<or> scaled_model_status' ?s4 = PRIMAL_UNBOUNDED"
    using assms(2) by simp
  have h0: "hmos' ?s4 ! 0 = (hmos' s ! 0)\<lparr>hmo_unscaled_model_status' := st, hmo_scaled_model_status' := st\<rparr>"
    using assms(1) by (simp add: hmo_update_def)
  show ?thesis
    unfolding e using beforeReturnFromRun_found[OF ne sc, of env] h0 by simp
qed

lemma hmos_nonempty_prepare_presolve [simp]:
  "(hmos' (prepare_presolve env s) = []) = (hmos' s = [])"
  by (simp add: prepare_presolve_def Let_def)

lemma hmos_nonempty_after_presolve [simp]:
  "(hmos' (after_presolve env s) = []) = (hmos' s = [])"
  by (simp add: after_presolve_def)

lemma calls_run_presolve_status [simp]:
  "calls' (snd (run_presolve_status env st r s)) = calls' s"
  by (simp add: run_presolve_status_def Let_def)

lemma run_with_presolve_found:
  assumes "fst (runPresolve env (prepare_presolve env s)) = Infeasible \<or>
           fst (runPresolve env (prepare_presolve env s)) = Unbounded"
  shows "run_with_presolve env ph r s =
           run_presolve_status env
             (if fst (runPresolve env (prepare_presolve env s)) = Infeasible
              then PRIMAL_INFEASIBLE else PRIMAL_UNBOUNDED) OK (after_presolve env s)"
  using assms by (auto simp add: run_with_presolve_eq)

lemma run_with_presolve_timeout:
  assumes "fst (runPresolve env (prepare_presolve env s)) = Timeout \<or>
           fst (runPresolve env (prepare_presolve env s)) = OptionsError"
  shows "run_with_presolve env ph r s =
           (Warning, (after_presolve env s)\<lparr>model_status' := PRESOLVE_ERROR\<rparr>)"
  using assms by (auto simp add: run_with_presolve_eq)

subsection \<open>Facts for the claims\<close>

lemma clear_frame [simp]:
  "hmos' (clearSolution s) = hmos' s" "calls' (clearSolution s) = calls' s"
  "hmos' (clearBasis s) = hmos' s" "calls' (clearBasis s) = calls' s"
  "hmos' (clearInfo env s) = hmos' s" "calls' (clearInfo env s) = calls' s"
  by (simp_all add: clearSolution_def clearBasis_def clearInfo_def)

lemma beforeReturnFromRun_empty:
  assumes "hmos' s \<noteq> []" and "scaled_model_status' s = MODEL_EMPTY"
  shows "model_status' (beforeReturnFromRun env s) = model_status' s \<and>
         scaled_model_status' (beforeReturnFromRun env s) = MODEL_EMPTY \<and>
         solution_empty (solution' (beforeReturnFromRun env s)) \<and>
         basis_cleared (basis' (beforeReturnFromRun env s))"
  using assms by (simp add: beforeReturnFromRun_eq)

lemma run_loaded_empty:
  assumes "hmos' s \<noteq> []" and "numCol' (lp' s) = 0"
  shows "fst (run_loaded env r s) = OK \<and>
         model_status' (snd (run_loaded env r s)) = MODEL_EMPTY \<and>
         scaled_model_status' (snd (run_loaded env r s)) = MODEL_EMPTY \<and>
         solution_empty (solution' (snd (run_loaded env r s))) \<and>
         basis_cleared (basis' (snd (run_loaded env r s))) \<and>
         calls' (snd (run_loaded env r s)) = calls' s"
proof -
  let ?s8 = "hmo_update 0 (\<lambda>h. h\<lparr>hmo_scaled_model_status' := MODEL_EMPTY\<rparr>)
              (hmo_update 0 (\<lambda>h. h\<lparr>hmo_unscaled_model_status' := MODEL_EMPTY\<rparr>)
                 ((reset_status s)\<lparr>model_status' := MODEL_EMPTY, scaled_model_status' := MODEL_EMPTY\<rparr>))"
  have e: "run_loaded env r s = (OK, beforeReturnFromRun env ?s8)"
    using assms(2) by (simp add: run_loaded_def Let_def reset_status_def)
  have ne: "hmos' ?s8 \<noteq> []" using assms(1) by simp
  have sc: "scaled_model_status' ?s8 = MODEL_EMPTY" by simp
  show ?thesis
    unfolding e using beforeReturnFromRun_empty[OF ne sc, of env] by simp
qed

lemma run_with_presolve_other:
  assumes "fst (runPresolve env (prepare_presolve env s)) = Empty \<or>
           fst (runPresolve env (prepare_presolve env s)) = NullError"
  shows "run_with_presolve env ph r s =
           run_presolve_status env PRESOLVE_ERROR Error (after_presolve env s)"
  using assms by (auto simp add: run_with_presolve_eq)

lemma list_all_event_ok_options:
  "list_all (event_ok env) evs \<Longrightarrow> list_all (options_at_solve_ok env) evs"
  by (induction evs) (simp_all add: event_ok_def)

lemma list_all_event_ok_no_run:
  "list_all (event_ok env) evs \<Longrightarrow> filter is_RunCalled evs = []"
  by (induction evs) (simp_all add: event_ok_def)

lemma options_result_run_solve_reduced:
  "options' (result_state (run_solve_reduced env ph r s)) = options' s"
  by (simp add: run_solve_reduced_def Let_def split_beta)

lemma options_result_run_hot_start:
  "options' (result_state (run_hot_start env r s)) = options' s"
  by (simp add: run_hot_start_def Let_def split_beta)

lemma run_calls_filter:
  "filter is_RunCalled (new_calls s (snd (run env s))) =
     [RunCalled (valid' (basis' s)) (presolve (options' s))]"
proof -
  from run_calls[of env s]
  obtain evs where c: "calls' (snd (run env s)) =
            calls' s @ RunCalled (valid' (basis' s)) (presolve (options' s)) # evs"
    and l: "list_all (event_ok env) evs" by blast
  show ?thesis
    unfolding new_calls_append[OF c] using list_all_event_ok_no_run[OF l] by simp
qed

lemma lp_runPresolve_init: "runPresolve_init env s = Inr t \<Longrightarrow> lp' t = lp' s"
  by (auto simp add: runPresolve_init_def Let_def split: if_splits)

lemma colCost_update_reduction_counts [simp]:
  "reduced_lp' (update_reduction_counts lp p) = reduced_lp' p"
  by (simp add: update_reduction_counts_def split: HighsPresolveStatus.splits)

lemma uminus_uminus_list [simp]: "map uminus (map uminus (xs :: real list)) = xs"
  by (induction xs) simp_all


lemma length_resize [simp]: "length (resize n d xs) = n"
  by (simp add: resize_def)

lemma pool_run:
  assumes "length (hmos' s) = 1"
  shows "length (hmos' (snd (run env s))) = 1"
proof -
  have l: "length (hmos' (entry_state env s)) = 1" using assms by simp
  have "run env s = run_loaded env OK (entry_state env s)"
    using assms by (simp add: run_eq)
  then show ?thesis using pool_run_loaded[OF l] by simp
qed

subsection \<open>The examples, evaluated\<close>

lemmas example_defs = example_lp_def example_reduced_lp_def example_options_def example_info_def
  example_solution_params_def example_hmo_def example_presolve_def example_solveLp_def
  example_env_def example_highs_def

lemmas run_defs = run_def run_loaded_def run_with_presolve_def run_without_presolve_def
  prepare_presolve_def prepare_postsolve_def run_postsolve_def run_postsolve_failed_def
  run_hot_start_def run_presolve_status_def run_solve_reduced_def run_solve_original_def
  run_finish_def getHighsModelStatusAndInfo_def runLpSolver_def runPostsolve_def runPresolve_def
  runPresolve_init_def update_reduction_counts_def beforeReturnFromRun_def haveHmo_def
  clearSolver_def clearInfo_def clearBasis_def clearSolution_def clearModelStatus_def
  record_call_def hmo_update_def set_lp_name_def lp_of_def HighsModelObject_ctor_def
  getReducedProblem_def getColStatus_def getRowStatus_def setBasisInfo_def
  negateReducedLpCost_def negateReducedLpColDuals_def isSolutionConsistent_def
  copyHighsIterationCounts_from_info_def copyHighsIterationCounts_to_info_def
  interpretCallStatus_def resize_def

lemma ex_timeout:
  "run (example_env Reduced SolutionRecovered 7) example_highs =
     (Warning, example_highs\<lparr>model_status' := PRESOLVE_ERROR,
        calls' := [RunCalled False ''choose'', PresolveReturned Timeout],
        hmos' := [example_hmo]\<rparr>)"
  by (simp add: run_defs example_defs Let_def)

lemma ex_infeasible_calls:
  "new_calls example_highs (snd (run (example_env Infeasible SolutionRecovered 1) example_highs)) =
     [RunCalled False ''choose'', PresolveReturned Infeasible]"
  by (simp add: run_defs example_defs Let_def new_calls_def)

lemma ex_empty_calls:
  "new_calls example_highs (snd (run (example_env Empty SolutionRecovered 1) example_highs)) =
     [RunCalled False ''choose'', PresolveReturned Empty]"
  by (simp add: run_defs example_defs Let_def new_calls_def)

lemma ex_timeout_calls:
  "new_calls example_highs (snd (run (example_env Reduced SolutionRecovered 7) example_highs)) =
     [RunCalled False ''choose'', PresolveReturned Timeout]"
  unfolding ex_timeout new_calls_def by (simp add: example_highs_def)

lemma ex_reduced_calls:
  "new_calls example_highs (snd (run (example_env Reduced SolutionRecovered 1) example_highs)) =
     [RunCalled False ''choose'', PresolveReturned Reduced,
      SolveLpCalled 1 ''Solving the presolved LP''
        (example_options\<lparr>dual_objective_value_upper_bound := 1000000\<rparr>),
      PostsolveCalled \<lparr>col_value = [5], col_dual = [-3], row_value = [], row_dual = []\<rparr>,
      PostsolveReturned SolutionRecovered,
      SolveLpCalled 0 ''Solving the original LP from the solution after postsolve''
        (example_options\<lparr>simplex_strategy := 0, highs_min_threads := 1, highs_max_threads := 1\<rparr>)]"
  by (simp add: run_defs example_defs Let_def new_calls_def)

lemma ex_entry_options:
  "entry_options (example_env ps pst clock) example_highs = example_options"
  by (simp add: entry_options_def example_highs_def example_options_def)

lemma ex_runPresolve_init:
  "runPresolve_init (example_env Reduced SolutionRecovered 1) example_highs =
     Inr (example_highs\<lparr>presolve' := example_presolve\<lparr>presolve_time_limit := 5\<rparr>\<rparr>)"
  by (simp add: runPresolve_init_def example_defs Let_def)


section \<open>The claims\<close>

text \<open>
  Claim C1. If presolve reports infeasible or unbounded, \<open>run\<close> returns OK; the
  model status and the scaled model status of the object and of context 0 are the
  detected status (primal infeasible, primal unbounded); the solution of the object is
  empty; and the stages called by this run are the entry of \<open>run\<close> and presolve
  only: no solve stage and no postsolve stage.
\<close>

theorem presolve_infeasible_short_circuit:
  assumes "PresolveReturned ps \<in> set (new_calls s (snd (run env s)))"
    and "ps = Infeasible \<or> ps = Unbounded"
  shows "fst (run env s) = OK \<and>
         model_status' (snd (run env s)) =
           (if ps = Infeasible then PRIMAL_INFEASIBLE else PRIMAL_UNBOUNDED) \<and>
         scaled_model_status' (snd (run env s)) = model_status' (snd (run env s)) \<and>
         hmo_unscaled_model_status' (hmos' (snd (run env s)) ! 0) = model_status' (snd (run env s)) \<and>
         hmo_scaled_model_status' (hmos' (snd (run env s)) ! 0) = model_status' (snd (run env s)) \<and>
         solution_empty (solution' (snd (run env s))) \<and>
         new_calls s (snd (run env s)) =
           [RunCalled (valid' (basis' s)) (presolve (options' s)), PresolveReturned ps]"
proof -
  from presolve_event_run[OF assms(1)]
  obtain t r where r: "run env s = run_with_presolve env (length (hmos' t)) r (reset_status t)"
    and ne: "hmos' t \<noteq> []"
    and ps: "ps = fst (runPresolve env (prepare_presolve env (reset_status t)))"
    and ct: "calls' t = calls' s @ [RunCalled (valid' (basis' s)) (presolve (options' s))]"
    by blast
  let ?st = "if ps = Infeasible then PRIMAL_INFEASIBLE else PRIMAL_UNBOUNDED"
  let ?a = "after_presolve env (reset_status t)"
  have e: "run env s = run_presolve_status env ?st OK ?a"
    unfolding r using assms(2) ps by (intro run_with_presolve_found[THEN trans]) auto
  have nea: "hmos' ?a \<noteq> []" using ne by simp
  have st: "?st = PRIMAL_INFEASIBLE \<or> ?st = PRIMAL_UNBOUNDED" by simp
  have c: "calls' (snd (run env s)) =
      calls' s @ [RunCalled (valid' (basis' s)) (presolve (options' s)), PresolveReturned ps]"
    unfolding e using ct ps by (simp add: calls_after_presolve del: calls_runPresolve)
  have f: "fst (run env s) = OK" unfolding e by (simp add: run_presolve_status_def Let_def)
  show ?thesis
    using run_presolve_status_found[OF nea st, of env OK] f new_calls_append[OF c]
    unfolding e by simp
qed

theorem presolve_infeasible_short_circuit_witness:
  "PresolveReturned Infeasible \<in>
     set (new_calls example_highs (snd (run (example_env Infeasible SolutionRecovered 1) example_highs))) \<and>
   fst (run (example_env Infeasible SolutionRecovered 1) example_highs) = OK \<and>
   model_status' (snd (run (example_env Infeasible SolutionRecovered 1) example_highs)) =
     PRIMAL_INFEASIBLE \<and>
   scaled_model_status' (snd (run (example_env Infeasible SolutionRecovered 1) example_highs)) =
     PRIMAL_INFEASIBLE \<and>
   solution_empty (solution' (snd (run (example_env Infeasible SolutionRecovered 1) example_highs)))"
proof -
  have h: "PresolveReturned Infeasible \<in>
     set (new_calls example_highs (snd (run (example_env Infeasible SolutionRecovered 1) example_highs)))"
    by (simp add: ex_infeasible_calls)
  show ?thesis
    using h presolve_infeasible_short_circuit[OF h] by simp
qed

text \<open>
  Claim C2, amended. Whenever \<open>run\<close> returns with context 0 marked with an error
  status (load, model, presolve, solve or postsolve error), it returns Error and the
  solution, the basis and the info of the object are cleared; this is what happens when
  presolve answers with a status that \<open>run\<close> does not expect, which marks context 0
  with the presolve error. When presolve times out or reports an options error,
  \<open>run\<close> marks the model status of the object with the presolve error and returns
  Warning.
\<close>

theorem error_status_clears_and_returns_Error:
  "(hmos' (snd (run env s)) \<noteq> [] \<and>
    is_error_status (hmo_scaled_model_status' (hmos' (snd (run env s)) ! 0)) \<longrightarrow>
      fst (run env s) = Error \<and> all_cleared env (snd (run env s))) \<and>
   (PresolveReturned Empty \<in> set (new_calls s (snd (run env s))) \<or>
    PresolveReturned NullError \<in> set (new_calls s (snd (run env s))) \<longrightarrow>
      fst (run env s) = Error \<and> all_cleared env (snd (run env s)) \<and>
      hmo_scaled_model_status' (hmos' (snd (run env s)) ! 0) = PRESOLVE_ERROR \<and>
      hmo_unscaled_model_status' (hmos' (snd (run env s)) ! 0) = PRESOLVE_ERROR) \<and>
   (PresolveReturned Timeout \<in> set (new_calls s (snd (run env s))) \<or>
    PresolveReturned OptionsError \<in> set (new_calls s (snd (run env s))) \<longrightarrow>
      fst (run env s) = Warning \<and> model_status' (snd (run env s)) = PRESOLVE_ERROR)"
proof -
  have A: "hmos' (snd (run env s)) \<noteq> [] \<and>
      is_error_status (hmo_scaled_model_status' (hmos' (snd (run env s)) ! 0)) \<Longrightarrow>
    fst (run env s) = Error \<and> all_cleared env (snd (run env s))"
    using good_run[of env s] by (simp add: good_def)
  have B: "fst (run env s) = Warning \<and> model_status' (snd (run env s)) = PRESOLVE_ERROR"
    if a: "PresolveReturned Timeout \<in> set (new_calls s (snd (run env s))) \<or>
      PresolveReturned OptionsError \<in> set (new_calls s (snd (run env s)))"
  proof -
    from a obtain ps where p: "PresolveReturned ps \<in> set (new_calls s (snd (run env s)))"
      and q: "ps = Timeout \<or> ps = OptionsError" by blast
    from presolve_event_run[OF p]
    obtain t r where r: "run env s = run_with_presolve env (length (hmos' t)) r (reset_status t)"
      and ps: "ps = fst (runPresolve env (prepare_presolve env (reset_status t)))"
      by blast
    have "run env s = (Warning, (after_presolve env (reset_status t))\<lparr>model_status' := PRESOLVE_ERROR\<rparr>)"
      unfolding r using q ps by (intro run_with_presolve_timeout) auto
    then show ?thesis by simp
  qed
  have C: "fst (run env s) = Error \<and> all_cleared env (snd (run env s)) \<and>
      hmo_scaled_model_status' (hmos' (snd (run env s)) ! 0) = PRESOLVE_ERROR \<and>
      hmo_unscaled_model_status' (hmos' (snd (run env s)) ! 0) = PRESOLVE_ERROR"
    if a: "PresolveReturned Empty \<in> set (new_calls s (snd (run env s))) \<or>
      PresolveReturned NullError \<in> set (new_calls s (snd (run env s)))"
  proof -
    from a obtain ps where p: "PresolveReturned ps \<in> set (new_calls s (snd (run env s)))"
      and q: "ps = Empty \<or> ps = NullError" by blast
    from presolve_event_run[OF p]
    obtain t r where r: "run env s = run_with_presolve env (length (hmos' t)) r (reset_status t)"
      and ne: "hmos' t \<noteq> []"
      and ps: "ps = fst (runPresolve env (prepare_presolve env (reset_status t)))"
      by blast
    let ?a = "after_presolve env (reset_status t)"
    have e: "run env s = run_presolve_status env PRESOLVE_ERROR Error ?a"
      unfolding r using q ps by (intro run_with_presolve_other) auto
    have nea: "hmos' ?a \<noteq> []" using ne by simp
    have h: "hmo_scaled_model_status' (hmos' (snd (run env s)) ! 0) = PRESOLVE_ERROR \<and>
        hmo_unscaled_model_status' (hmos' (snd (run env s)) ! 0) = PRESOLVE_ERROR"
      unfolding e using nea by (simp add: run_presolve_status_def Let_def hmo_update_def)
    have n: "hmos' (snd (run env s)) \<noteq> []"
      unfolding e using nea by (simp add: run_presolve_status_def Let_def)
    from good_run[of env s] h n
    have "fst (run env s) = Error \<and> all_cleared env (snd (run env s))" by (simp add: good_def)
    then show ?thesis using h by simp
  qed
  show ?thesis using A B C by blast
qed

theorem error_status_clears_and_returns_Error_witness:
  "PresolveReturned Empty \<in>
     set (new_calls example_highs (snd (run (example_env Empty SolutionRecovered 1) example_highs))) \<and>
   fst (run (example_env Empty SolutionRecovered 1) example_highs) = Error \<and>
   all_cleared (example_env Empty SolutionRecovered 1)
     (snd (run (example_env Empty SolutionRecovered 1) example_highs)) \<and>
   hmo_scaled_model_status'
     (hmos' (snd (run (example_env Empty SolutionRecovered 1) example_highs)) ! 0) = PRESOLVE_ERROR \<and>
   hmos' (snd (run (example_env Empty SolutionRecovered 1) example_highs)) \<noteq> [] \<and>
   is_error_status (hmo_scaled_model_status'
     (hmos' (snd (run (example_env Empty SolutionRecovered 1) example_highs)) ! 0)) \<and>
   PresolveReturned Timeout \<in>
     set (new_calls example_highs (snd (run (example_env Reduced SolutionRecovered 7) example_highs))) \<and>
   fst (run (example_env Reduced SolutionRecovered 7) example_highs) = Warning \<and>
   model_status' (snd (run (example_env Reduced SolutionRecovered 7) example_highs)) = PRESOLVE_ERROR"
proof -
  have h: "PresolveReturned Empty \<in>
     set (new_calls example_highs (snd (run (example_env Empty SolutionRecovered 1) example_highs)))"
    by (simp add: ex_empty_calls)
  have k: "PresolveReturned Timeout \<in>
     set (new_calls example_highs (snd (run (example_env Reduced SolutionRecovered 7) example_highs)))"
    by (simp add: ex_timeout_calls)
  have n: "hmos' (snd (run (example_env Empty SolutionRecovered 1) example_highs)) \<noteq> []"
    using pool_run[of example_highs "example_env Empty SolutionRecovered 1"]
    by (auto simp add: example_highs_def)
  show ?thesis
    using h k n
      error_status_clears_and_returns_Error[of "example_env Empty SolutionRecovered 1" example_highs]
      error_status_clears_and_returns_Error[of "example_env Reduced SolutionRecovered 7" example_highs]
    by simp
qed

text \<open>
  Claim C2 as stated fails when presolve times out: the clock reads 7 and the time limit
  is 5, \<open>run\<close> ends with the presolve error as the model status of the object, but it
  returns Warning, not Error, and the solution left by the earlier run is still there.
\<close>

theorem timeout_returns_Warning_uncleared:
  "fst (run (example_env Reduced SolutionRecovered 7) example_highs) = Warning \<and>
   model_status' (snd (run (example_env Reduced SolutionRecovered 7) example_highs)) = PRESOLVE_ERROR \<and>
   \<not> solution_empty (solution' (snd (run (example_env Reduced SolutionRecovered 7) example_highs)))"
  unfolding ex_timeout by (simp add: solution_empty_def example_highs_def)



text \<open>
  Claim C4. For a loaded model with zero columns, \<open>run\<close> returns OK, the model
  status and the scaled model status are model-empty, the solution and the basis of the
  object are empty, and the only stage recorded is the entry of \<open>run\<close>: neither
  presolve nor a solver is called.
\<close>

theorem zero_columns_model_empty:
  assumes "hmos' s \<noteq> []" and "numCol' (lp' s) = 0"
  shows "fst (run env s) = OK \<and>
         model_status' (snd (run env s)) = MODEL_EMPTY \<and>
         scaled_model_status' (snd (run env s)) = MODEL_EMPTY \<and>
         solution_empty (solution' (snd (run env s))) \<and>
         basis_cleared (basis' (snd (run env s))) \<and>
         new_calls s (snd (run env s)) = [RunCalled (valid' (basis' s)) (presolve (options' s))]"
proof -
  have r: "run env s = run_loaded env OK (entry_state env s)"
    using assms(1) by (simp add: run_eq)
  have ne: "hmos' (entry_state env s) \<noteq> []" using assms(1) by simp
  have nc: "numCol' (lp' (entry_state env s)) = 0" using assms(2) by simp
  show ?thesis
    unfolding r using run_loaded_empty[OF ne nc, of env OK]
    by (simp add: new_calls_def)
qed

theorem zero_columns_model_empty_witness:
  "hmos' (example_highs\<lparr>lp' := example_empty_lp\<rparr>) \<noteq> [] \<and>
   numCol' (lp' (example_highs\<lparr>lp' := example_empty_lp\<rparr>)) = 0 \<and>
   fst (run (example_env Reduced SolutionRecovered 1) (example_highs\<lparr>lp' := example_empty_lp\<rparr>)) = OK \<and>
   model_status' (snd (run (example_env Reduced SolutionRecovered 1)
                         (example_highs\<lparr>lp' := example_empty_lp\<rparr>))) = MODEL_EMPTY \<and>
   solution_empty (solution' (snd (run (example_env Reduced SolutionRecovered 1)
                         (example_highs\<lparr>lp' := example_empty_lp\<rparr>)))) \<and>
   basis_cleared (basis' (snd (run (example_env Reduced SolutionRecovered 1)
                         (example_highs\<lparr>lp' := example_empty_lp\<rparr>)))) \<and>
   new_calls (example_highs\<lparr>lp' := example_empty_lp\<rparr>)
     (snd (run (example_env Reduced SolutionRecovered 1) (example_highs\<lparr>lp' := example_empty_lp\<rparr>))) =
     [RunCalled False ''choose'']"
proof -
  have a: "hmos' (example_highs\<lparr>lp' := example_empty_lp\<rparr>) \<noteq> []"
    by (simp add: example_highs_def)
  have b: "numCol' (lp' (example_highs\<lparr>lp' := example_empty_lp\<rparr>)) = 0"
    by (simp add: example_empty_lp_def)
  show ?thesis
    using a b zero_columns_model_empty[OF a b, of "example_env Reduced SolutionRecovered 1"]
    by (simp add: example_highs_def example_options_def)
qed

text \<open>
  Claim C5, at the input where the code departs from it. Presolve reduces the LP, the
  reduced LP is solved to optimality and postsolve answers with a status other than
  solution-recovered. \<open>run\<close> returns Error and context 0 carries the postsolve
  error, but the model status and the scaled model status of the object, which
  \<open>run\<close> has set to the postsolve error, are not-set on return:
  \<open>beforeReturnFromRun\<close> calls \<open>clearSolver\<close>, which clears them.
\<close>

theorem postsolve_failure_status_is_reset:
  "fst (run (example_env Reduced NoPostsolve 1) example_highs) = Error \<and>
   PostsolveReturned NoPostsolve \<in>
     set (new_calls example_highs (snd (run (example_env Reduced NoPostsolve 1) example_highs))) \<and>
   model_status' (snd (run (example_env Reduced NoPostsolve 1) example_highs)) = NOTSET \<and>
   scaled_model_status' (snd (run (example_env Reduced NoPostsolve 1) example_highs)) = NOTSET \<and>
   hmo_unscaled_model_status'
     (hmos' (snd (run (example_env Reduced NoPostsolve 1) example_highs)) ! 0) = POSTSOLVE_ERROR \<and>
   hmo_scaled_model_status'
     (hmos' (snd (run (example_env Reduced NoPostsolve 1) example_highs)) ! 0) = POSTSOLVE_ERROR"
  by (simp add: run_defs example_defs Let_def new_calls_def)

text \<open>
  Claim C6. Every solve that \<open>run\<close> starts on a context other than context 0 is the
  solve of the presolved LP and sees the upper bound on the dual objective value at
  infinity, and every hot-start solve of the original LP after postsolve sees the
  minimum and maximum thread counts at 1 (\<open>options_at_solve_ok\<close>); when \<open>run\<close>
  returns, these three options have the values they had on entry; and the segment of
  \<open>run\<close> that solves the reduced LP and the segment that hot-starts leave the
  options as they found them, whatever the solver returned.
\<close>

theorem options_overridden_and_restored:
  "list_all (options_at_solve_ok env) (new_calls s (snd (run env s))) \<and>
   dual_objective_value_upper_bound (options' (snd (run env s))) =
     dual_objective_value_upper_bound (entry_options env s) \<and>
   highs_min_threads (options' (snd (run env s))) = highs_min_threads (entry_options env s) \<and>
   highs_max_threads (options' (snd (run env s))) = highs_max_threads (entry_options env s) \<and>
   options' (result_state (run_solve_reduced env ph r t)) = options' t \<and>
   options' (result_state (run_hot_start env r t)) = options' t"
proof -
  from run_calls[of env s]
  obtain evs where c: "calls' (snd (run env s)) =
            calls' s @ RunCalled (valid' (basis' s)) (presolve (options' s)) # evs"
    and l: "list_all (event_ok env) evs"
    and o: "dual_objective_value_upper_bound (options' (snd (run env s))) =
           dual_objective_value_upper_bound (entry_options env s)"
       "highs_min_threads (options' (snd (run env s))) = highs_min_threads (entry_options env s)"
       "highs_max_threads (options' (snd (run env s))) = highs_max_threads (entry_options env s)"
    by blast
  have n: "new_calls s (snd (run env s)) = RunCalled (valid' (basis' s)) (presolve (options' s)) # evs"
    by (rule new_calls_append[OF c])
  show ?thesis
    unfolding n using o list_all_event_ok_options[OF l]
    by (simp add: options_result_run_solve_reduced options_result_run_hot_start)
qed

theorem options_overridden_and_restored_witness:
  "new_calls example_highs (snd (run (example_env Reduced SolutionRecovered 1) example_highs)) =
     [RunCalled False ''choose'', PresolveReturned Reduced,
      SolveLpCalled 1 ''Solving the presolved LP''
        (example_options\<lparr>dual_objective_value_upper_bound := 1000000\<rparr>),
      PostsolveCalled \<lparr>col_value = [5], col_dual = [-3], row_value = [], row_dual = []\<rparr>,
      PostsolveReturned SolutionRecovered,
      SolveLpCalled 0 ''Solving the original LP from the solution after postsolve''
        (example_options\<lparr>simplex_strategy := 0, highs_min_threads := 1, highs_max_threads := 1\<rparr>)] \<and>
   list_all (options_at_solve_ok (example_env Reduced SolutionRecovered 1))
     (new_calls example_highs (snd (run (example_env Reduced SolutionRecovered 1) example_highs))) \<and>
   dual_objective_value_upper_bound
     (options' (snd (run (example_env Reduced SolutionRecovered 1) example_highs))) = 100 \<and>
   highs_min_threads (options' (snd (run (example_env Reduced SolutionRecovered 1) example_highs))) = 2 \<and>
   highs_max_threads (options' (snd (run (example_env Reduced SolutionRecovered 1) example_highs))) = 8"
proof -
  have t: "list_all (options_at_solve_ok (example_env Reduced SolutionRecovered 1))
       (new_calls example_highs (snd (run (example_env Reduced SolutionRecovered 1) example_highs))) \<and>
     dual_objective_value_upper_bound
       (options' (snd (run (example_env Reduced SolutionRecovered 1) example_highs))) =
       dual_objective_value_upper_bound example_options \<and>
     highs_min_threads (options' (snd (run (example_env Reduced SolutionRecovered 1) example_highs))) =
       highs_min_threads example_options \<and>
     highs_max_threads (options' (snd (run (example_env Reduced SolutionRecovered 1) example_highs))) =
       highs_max_threads example_options"
    using options_overridden_and_restored
            [where env = "example_env Reduced SolutionRecovered 1" and s = example_highs
               and ph = 1 and r = OK and t = example_highs]
    unfolding ex_entry_options by simp
  have o: "dual_objective_value_upper_bound example_options = 100"
    "highs_min_threads example_options = 2" "highs_max_threads example_options = 8"
    by (simp_all add: example_options_def)
  show ?thesis using t ex_reduced_calls unfolding o by simp
qed

text \<open>
  Claim C7. When the model status is not set, \<open>unscaledOptimal\<close> holds exactly when
  the scaled model status is optimal and the maximum primal and dual infeasibilities are
  within the tolerances, and then \<open>getUseModelStatus\<close> reports optimal without
  running. Otherwise, without permission to re-run it reports the model status as it is;
  with permission it calls \<open>run\<close> exactly once, from the state with the basis
  invalidated and presolve set to on, restores the presolve option, returns Error exactly
  when that run did, and otherwise reports the model status of the re-run if it is set,
  optimal if the check now succeeds, and the status it was given if not.
\<close>

theorem getUseModelStatus_reconciles:
  assumes "model_status' s = NOTSET"
  shows
    "(unscaledOptimal ptol dtol s \<longleftrightarrow>
        scaled_model_status' s = OPTIMAL \<and> max_primal_infeasibility (info' s) \<le> ptol \<and>
        max_dual_infeasibility (info' s) \<le> dtol) \<and>
     (unscaledOptimal ptol dtol s \<longrightarrow>
        getUseModelStatus env u ptol dtol rerun s = (OK, OPTIMAL, s)) \<and>
     (\<not> unscaledOptimal ptol dtol s \<and> \<not> rerun \<longrightarrow>
        getUseModelStatus env u ptol dtol rerun s = (OK, NOTSET, s)) \<and>
     (\<not> unscaledOptimal ptol dtol s \<and> rerun \<longrightarrow>
        snd (snd (getUseModelStatus env u ptol dtol rerun s)) =
          (snd (run env (rerun_state env s)))
            \<lparr>options' := (options' (snd (run env (rerun_state env s))))
                           \<lparr>presolve := presolve (options' s)\<rparr>\<rparr> \<and>
        filter is_RunCalled (new_calls s (snd (snd (getUseModelStatus env u ptol dtol rerun s)))) =
          [RunCalled False (on_string env)] \<and>
        presolve (options' (snd (snd (getUseModelStatus env u ptol dtol rerun s)))) =
          presolve (options' s) \<and>
        (fst (getUseModelStatus env u ptol dtol rerun s) = Error \<longleftrightarrow>
           fst (run env (rerun_state env s)) = Error) \<and>
        (fst (getUseModelStatus env u ptol dtol rerun s) \<noteq> Error \<longrightarrow>
           fst (getUseModelStatus env u ptol dtol rerun s) = OK \<and>
           fst (snd (getUseModelStatus env u ptol dtol rerun s)) =
             (let s1 = snd (snd (getUseModelStatus env u ptol dtol rerun s))
              in if model_status' s1 \<noteq> NOTSET then model_status' s1
                 else if unscaledOptimal ptol dtol s1 then OPTIMAL else u)))"
proof -
  let ?t = "rerun_state env s"
  let ?s3 = "snd (run env ?t)"
  let ?s4 = "?s3\<lparr>options' := (options' ?s3)\<lparr>presolve := presolve (options' s)\<rparr>\<rparr>"
  have nc: "new_calls s ?s4 = new_calls ?t ?s3"
    by (simp add: new_calls_def rerun_state_def)
  have f: "filter is_RunCalled (new_calls s ?s4) = [RunCalled False (on_string env)]"
    unfolding nc using run_calls_filter[of ?t env] by (simp add: rerun_state_def)
  have g: "\<not> unscaledOptimal ptol dtol s \<Longrightarrow> rerun \<Longrightarrow>
      getUseModelStatus env u ptol dtol rerun s =
        (if interpretCallStatus (fst (run env ?t)) OK = Error
         then (interpretCallStatus (fst (run env ?t)) OK, u, ?s4)
         else if model_status' ?s4 \<noteq> NOTSET then (OK, model_status' ?s4, ?s4)
         else if unscaledOptimal ptol dtol ?s4 then (OK, OPTIMAL, ?s4)
         else (OK, u, ?s4))"
    using assms by (simp add: getUseModelStatus_def Let_def split_beta rerun_state_def)
  have i: "(interpretCallStatus (fst (run env ?t)) OK = Error) = (fst (run env ?t) = Error)"
    by (cases "fst (run env ?t)") (simp_all add: interpretCallStatus_def)
  have 1: "unscaledOptimal ptol dtol s \<longleftrightarrow>
        scaled_model_status' s = OPTIMAL \<and> max_primal_infeasibility (info' s) \<le> ptol \<and>
        max_dual_infeasibility (info' s) \<le> dtol"
    by (auto simp add: unscaledOptimal_def)
  have 2: "unscaledOptimal ptol dtol s \<Longrightarrow>
        getUseModelStatus env u ptol dtol rerun s = (OK, OPTIMAL, s)"
    using assms by (simp add: getUseModelStatus_def)
  have 3: "\<not> unscaledOptimal ptol dtol s \<and> \<not> rerun \<Longrightarrow>
        getUseModelStatus env u ptol dtol rerun s = (OK, NOTSET, s)"
    using assms by (simp add: getUseModelStatus_def)
  have 4: "snd (snd (getUseModelStatus env u ptol dtol rerun s)) = ?s4 \<and>
        filter is_RunCalled (new_calls s (snd (snd (getUseModelStatus env u ptol dtol rerun s)))) =
          [RunCalled False (on_string env)] \<and>
        presolve (options' (snd (snd (getUseModelStatus env u ptol dtol rerun s)))) =
          presolve (options' s) \<and>
        (fst (getUseModelStatus env u ptol dtol rerun s) = Error \<longleftrightarrow>
           fst (run env (rerun_state env s)) = Error) \<and>
        (fst (getUseModelStatus env u ptol dtol rerun s) \<noteq> Error \<longrightarrow>
           fst (getUseModelStatus env u ptol dtol rerun s) = OK \<and>
           fst (snd (getUseModelStatus env u ptol dtol rerun s)) =
             (let s1 = snd (snd (getUseModelStatus env u ptol dtol rerun s))
              in if model_status' s1 \<noteq> NOTSET then model_status' s1
                 else if unscaledOptimal ptol dtol s1 then OPTIMAL else u))"
    if a: "\<not> unscaledOptimal ptol dtol s" and b: rerun
    unfolding g[OF a b] i using f by (simp add: Let_def)
  show ?thesis
    using 1 2 3 4 by blast
qed

theorem getUseModelStatus_reconciles_witness:
  "model_status' example_highs = NOTSET \<and>
   \<not> unscaledOptimal 0 0 example_highs \<and>
   filter is_RunCalled
     (new_calls example_highs
        (snd (snd (getUseModelStatus (example_env Reduced SolutionRecovered 1) NOTSET 0 0 True
                     example_highs)))) = [RunCalled False ''on''] \<and>
   presolve (options' (snd (snd (getUseModelStatus (example_env Reduced SolutionRecovered 1)
                                   NOTSET 0 0 True example_highs)))) = ''choose'' \<and>
   getUseModelStatus (example_env Reduced SolutionRecovered 1) NOTSET 0 0 False example_highs =
     (OK, NOTSET, example_highs) \<and>
   model_status' (example_highs\<lparr>scaled_model_status' := OPTIMAL\<rparr>) = NOTSET \<and>
   unscaledOptimal 0 0 (example_highs\<lparr>scaled_model_status' := OPTIMAL\<rparr>) \<and>
   getUseModelStatus (example_env Reduced SolutionRecovered 1) NOTSET 0 0 True
     (example_highs\<lparr>scaled_model_status' := OPTIMAL\<rparr>) =
     (OK, OPTIMAL, example_highs\<lparr>scaled_model_status' := OPTIMAL\<rparr>)"
proof -
  have a: "model_status' example_highs = NOTSET" by (simp add: example_highs_def)
  have b: "\<not> unscaledOptimal 0 0 example_highs"
    by (simp add: unscaledOptimal_def example_highs_def)
  have c: "model_status' (example_highs\<lparr>scaled_model_status' := OPTIMAL\<rparr>) = NOTSET"
    by (simp add: example_highs_def)
  have d: "unscaledOptimal 0 0 (example_highs\<lparr>scaled_model_status' := OPTIMAL\<rparr>)"
    by (simp add: unscaledOptimal_def example_highs_def example_info_def)
  have e: "on_string (example_env Reduced SolutionRecovered 1) = ''on''"
    "presolve (options' example_highs) = ''choose''"
    by (simp_all add: example_env_def example_highs_def example_options_def)
  let ?E = "example_env Reduced SolutionRecovered 1"
  have p1: "filter is_RunCalled
       (new_calls example_highs (snd (snd (getUseModelStatus ?E NOTSET 0 0 True example_highs)))) =
       [RunCalled False (on_string ?E)] \<and>
     presolve (options' (snd (snd (getUseModelStatus ?E NOTSET 0 0 True example_highs)))) =
       presolve (options' example_highs)"
    using getUseModelStatus_reconciles[OF a, of 0 0 ?E NOTSET True] b by blast
  have p2: "getUseModelStatus ?E NOTSET 0 0 False example_highs = (OK, NOTSET, example_highs)"
    using getUseModelStatus_reconciles[OF a, of 0 0 ?E NOTSET False] b by blast
  have p3: "getUseModelStatus ?E NOTSET 0 0 True (example_highs\<lparr>scaled_model_status' := OPTIMAL\<rparr>) =
     (OK, OPTIMAL, example_highs\<lparr>scaled_model_status' := OPTIMAL\<rparr>)"
    using getUseModelStatus_reconciles[OF c, of 0 0 ?E NOTSET True] d by blast
  show ?thesis
    using a b c d p1 p2 p3 unfolding e by blast
qed

text \<open>
  Claim C8. For a maximisation problem: when presolve answers reduced, the costs of
  the reduced LP that \<open>runPresolve\<close> leaves are the negated costs that presolve
  produced; \<open>runPostsolve\<close> calls postsolve with the column duals of the reduced
  solution negated, and when postsolve answers solution-recovered the reduced solution
  is the one that \<open>runPostsolve\<close> was given: the two negations cancel.
\<close>

theorem maximize_sign_flips:
  "(runPresolve_init env s = Inr t \<and> presolve_run env (presolve' t) = (Reduced, p) \<and>
    sense' (lp' s) = MAXIMIZE \<longrightarrow>
      fst (runPresolve env s) = Reduced \<and>
      colCost' (reduced_lp' (presolve' (snd (runPresolve env s)))) =
        map uminus (colCost' (reduced_lp' p))) \<and>
   (sense' (lp' s) = MAXIMIZE \<and>
    isSolutionConsistent (getReducedProblem (presolve' s)) (reduced_solution' (presolve' s)) \<and>
    (presolve_status' (presolve' s) = Reduced \<or> presolve_status' (presolve' s) = ReducedToEmpty) \<longrightarrow>
      new_calls s (snd (runPostsolve env s)) =
        [PostsolveCalled ((reduced_solution' (presolve' s))
           \<lparr>col_dual := map uminus (col_dual (reduced_solution' (presolve' s)))\<rparr>)] \<and>
      (fst (runPostsolve env s) = SolutionRecovered \<longrightarrow>
         reduced_solution' (presolve' (snd (runPostsolve env s))) = reduced_solution' (presolve' s)))"
proof -
  have A: "fst (runPresolve env s) = Reduced \<and>
      colCost' (reduced_lp' (presolve' (snd (runPresolve env s)))) =
        map uminus (colCost' (reduced_lp' p))"
    if "runPresolve_init env s = Inr t" "presolve_run env (presolve' t) = (Reduced, p)"
       "sense' (lp' s) = MAXIMIZE"
    using that lp_runPresolve_init[OF that(1)]
    by (simp add: runPresolve_def Let_def negateReducedLpCost_def)
  have B: "new_calls s (snd (runPostsolve env s)) =
        [PostsolveCalled ((reduced_solution' (presolve' s))
           \<lparr>col_dual := map uminus (col_dual (reduced_solution' (presolve' s)))\<rparr>)] \<and>
      (fst (runPostsolve env s) = SolutionRecovered \<longrightarrow>
         reduced_solution' (presolve' (snd (runPostsolve env s))) = reduced_solution' (presolve' s))"
    if "sense' (lp' s) = MAXIMIZE"
       "isSolutionConsistent (getReducedProblem (presolve' s)) (reduced_solution' (presolve' s))"
       "presolve_status' (presolve' s) = Reduced \<or> presolve_status' (presolve' s) = ReducedToEmpty"
    using that
    by (auto simp add: runPostsolve_def Let_def split_beta negateReducedLpColDuals_def
          record_call_def new_calls_def)
  show ?thesis using A B by blast
qed

theorem maximize_sign_flips_witness:
  "runPresolve_init (example_env Reduced SolutionRecovered 1) example_highs =
     Inr (example_highs\<lparr>presolve' := example_presolve\<lparr>presolve_time_limit := 5\<rparr>\<rparr>) \<and>
   presolve_run (example_env Reduced SolutionRecovered 1)
     (presolve' (example_highs\<lparr>presolve' := example_presolve\<lparr>presolve_time_limit := 5\<rparr>\<rparr>)) =
     (Reduced, example_presolve\<lparr>presolve_time_limit := 5, has_run' := True,
                                 presolve_status' := Reduced\<rparr>) \<and>
   sense' (lp' example_highs) = MAXIMIZE \<and>
   colCost' (reduced_lp' (example_presolve\<lparr>presolve_time_limit := 5, has_run' := True,
                                 presolve_status' := Reduced\<rparr>)) = [-1] \<and>
   fst (runPresolve (example_env Reduced SolutionRecovered 1) example_highs) = Reduced \<and>
   colCost' (reduced_lp' (presolve'
     (snd (runPresolve (example_env Reduced SolutionRecovered 1) example_highs)))) = [1] \<and>
   sense' (lp' example_postsolve_state) = MAXIMIZE \<and>
   isSolutionConsistent (getReducedProblem (presolve' example_postsolve_state))
     (reduced_solution' (presolve' example_postsolve_state)) \<and>
   presolve_status' (presolve' example_postsolve_state) = Reduced \<and>
   new_calls example_postsolve_state
     (snd (runPostsolve (example_env Reduced SolutionRecovered 1) example_postsolve_state)) =
     [PostsolveCalled \<lparr>col_value = [5], col_dual = [-3], row_value = [], row_dual = []\<rparr>] \<and>
   fst (runPostsolve (example_env Reduced SolutionRecovered 1) example_postsolve_state) =
     SolutionRecovered \<and>
   reduced_solution' (presolve'
     (snd (runPostsolve (example_env Reduced SolutionRecovered 1) example_postsolve_state))) =
     \<lparr>col_value = [5], col_dual = [3], row_value = [], row_dual = []\<rparr>"
proof -
  let ?E = "example_env Reduced SolutionRecovered 1"
  let ?P = "example_presolve\<lparr>presolve_time_limit := 5, has_run' := True,
                                 presolve_status' := Reduced\<rparr>"
  have a: "presolve_run ?E
     (presolve' (example_highs\<lparr>presolve' := example_presolve\<lparr>presolve_time_limit := 5\<rparr>\<rparr>)) =
     (Reduced, ?P)"
    by (simp add: example_env_def)
  have b: "sense' (lp' example_highs) = MAXIMIZE" "sense' (lp' example_postsolve_state) = MAXIMIZE"
    by (simp_all add: example_highs_def example_lp_def example_postsolve_state_def)
  have c: "colCost' (reduced_lp' ?P) = [-1]"
    by (simp add: example_presolve_def example_reduced_lp_def)
  have d: "isSolutionConsistent (getReducedProblem (presolve' example_postsolve_state))
     (reduced_solution' (presolve' example_postsolve_state))"
    "presolve_status' (presolve' example_postsolve_state) = Reduced"
    "reduced_solution' (presolve' example_postsolve_state) =
       \<lparr>col_value = [5], col_dual = [3], row_value = [], row_dual = []\<rparr>"
    by (simp_all add: example_postsolve_state_def isSolutionConsistent_def getReducedProblem_def
          example_presolve_def example_reduced_lp_def)
  have e: "fst (runPostsolve ?E example_postsolve_state) = SolutionRecovered"
    using d(1,2) by (simp add: runPostsolve_def Let_def split_beta example_env_def)
  show ?thesis
    using ex_runPresolve_init a b c d e
      maximize_sign_flips[of ?E example_highs
        "example_highs\<lparr>presolve' := example_presolve\<lparr>presolve_time_limit := 5\<rparr>\<rparr>" ?P]
      maximize_sign_flips[of ?E example_postsolve_state]
    by simp
qed



text \<open>
  Claim C10. \<open>writeSolution\<close> never returns OK: it returns Error exactly when the
  file name is not empty and the file cannot be opened for writing, and Warning
  otherwise; the object is unchanged; and all it writes is one line of warning to the
  standard output, never the solution.
\<close>

theorem writeSolution_never_writes:
  "fst (writeSolution env filename pretty s) \<noteq> OK \<and>
   (fst (writeSolution env filename pretty s) = Error \<longleftrightarrow>
      filename \<noteq> [] \<and> \<not> fopen_w env filename) \<and>
   (fst (writeSolution env filename pretty s) = Warning \<longleftrightarrow>
      filename = [] \<or> fopen_w env filename) \<and>
   fst (snd (writeSolution env filename pretty s)) = s \<and>
   list_all (\<lambda>w. fst w = ToStdout) (snd (snd (writeSolution env filename pretty s))) \<and>
   (fst (writeSolution env filename pretty s) = Warning \<longrightarrow>
      snd (snd (writeSolution env filename pretty s)) =
        [(ToStdout, ''warning: Feature under development'')])"
  by (simp add: writeSolution_def openWriteFile_def Let_def interpretCallStatus_def)

theorem writeSolution_never_writes_witness:
  "fopen_w (example_env Reduced SolutionRecovered 1) ''out.sol'' \<and>
   fst (writeSolution (example_env Reduced SolutionRecovered 1) ''out.sol'' False example_highs) =
     Warning \<and>
   snd (snd (writeSolution (example_env Reduced SolutionRecovered 1) ''out.sol'' False
               example_highs)) = [(ToStdout, ''warning: Feature under development'')] \<and>
   fst (snd (writeSolution (example_env Reduced SolutionRecovered 1) ''out.sol'' False
               example_highs)) = example_highs \<and>
   \<not> fopen_w (example_env Reduced SolutionRecovered 1) ''/'' \<and>
   fst (writeSolution (example_env Reduced SolutionRecovered 1) ''/'' False example_highs) = Error"
proof -
  have a: "fopen_w (example_env Reduced SolutionRecovered 1) ''out.sol''"
    "\<not> fopen_w (example_env Reduced SolutionRecovered 1) ''/''"
    by (simp_all add: example_env_def)
  show ?thesis
    using a
      writeSolution_never_writes[of "example_env Reduced SolutionRecovered 1" "''out.sol''" False
        example_highs]
      writeSolution_never_writes[of "example_env Reduced SolutionRecovered 1" "''/''" False
        example_highs]
    by simp
qed

end
